theory Spec2Isabelle
  imports Complex_Main
begin

section \<open>Python objects, exceptions and effects\<close>

text \<open>
  The Conveyor of \<^verbatim>\<open>amlpp/conveyor/conveyor.py\<close> drives objects it does not define: pandas
  tables, user-supplied stages ("blocks"), an estimator, metric functions and the search
  engines.  All of them are Python objects that are shared by reference and may be mutated
  in place, so the model keeps an explicit object store: an object lives at an address, the
  store is the list of all objects allocated so far, and a new object is appended at the
  end.  Python has no dangling references: every address the program holds is below the
  length of the store.
\<close>

type_synonym addr = nat

text \<open>An instance of a subclass of \<^verbatim>\<open>Exception\<close>: its class name and \<^verbatim>\<open>str(e)\<close>.\<close>

datatype exn = Exn (exn_class: string) (exn_msg: string)

text \<open>
  The calls the Conveyor makes on its collaborators, in the order it makes them.  The log
  is ghost state: it is written where the source makes the call and never read by the
  program.
\<close>

datatype event =
    BlockFit addr
  | BlockTransform addr
  | BlockTargetTransform addr
  | EstimatorFit addr
  | EstimatorPredict addr
  | MetricEval string
  | StudyOptimize string
  | ModelFit string
  | PbarCreate int
  | PbarPostfix string string
  | PbarUpdate
  | Print string

record 'o world =
  heap :: "'o list"
  calls :: "event list"

text \<open>
  A piece of Python either returns a value or raises; in both cases the store it leaves
  behind is the one the caller goes on with.  \<open>extern\<close> is code outside the
  repository (it sees the store only), \<open>action\<close> is code of the Conveyor.
\<close>

type_synonym ('a, 'o) extern = "'o list \<Rightarrow> (exn + 'a) \<times> 'o list"
type_synonym ('a, 'o) action = "'o world \<Rightarrow> (exn + 'a) \<times> 'o world"

definition ret :: "'a \<Rightarrow> ('a, 'o) action" where
  "ret a w = (Inr a, w)"

definition throw :: "exn \<Rightarrow> ('a, 'o) action" where
  "throw e w = (Inl e, w)"

definition andthen :: "('a, 'o) action \<Rightarrow> ('a \<Rightarrow> ('b, 'o) action) \<Rightarrow> ('b, 'o) action" where
  "andthen m f w = (case m w of (Inl e, w') \<Rightarrow> (Inl e, w') | (Inr a, w') \<Rightarrow> f a w')"

definition emit :: "event \<Rightarrow> (unit, 'o) action" where
  "emit ev w = (Inr (), w\<lparr>calls := calls w @ [ev]\<rparr>)"

text \<open>A call into foreign code: the call is logged, then the callee runs on the store.\<close>

definition invoke :: "event \<Rightarrow> ('a, 'o) extern \<Rightarrow> ('a, 'o) action" where
  "invoke ev f w = (case f (heap w) of (r, h') \<Rightarrow> (r, w\<lparr>heap := h', calls := calls w @ [ev]\<rparr>))"

text \<open>A foreign call that the log does not record.\<close>

definition foreign :: "('a, 'o) extern \<Rightarrow> ('a, 'o) action" where
  "foreign f w = (case f (heap w) of (r, h') \<Rightarrow> (r, w\<lparr>heap := h'\<rparr>))"

definition alloc :: "'o \<Rightarrow> (addr, 'o) action" where
  "alloc v w = (Inr (length (heap w)), w\<lparr>heap := heap w @ [v]\<rparr>)"

text \<open>\<^verbatim>\<open>X.copy()\<close> of pandas: a new object with the content of the old one.\<close>

definition copy :: "addr \<Rightarrow> (addr, 'o) action" where
  "copy a w = alloc (heap w ! a) w"

text \<open>
  A Python float as far as comparison goes: a finite double is the real number it denotes,
  and every comparison with NaN is false.
\<close>

datatype pyfloat = Float real | PosInf | NegInf | NaN

fun float_gt :: "pyfloat \<Rightarrow> pyfloat \<Rightarrow> bool" where
  "float_gt NaN _ = False"
| "float_gt _ NaN = False"
| "float_gt (Float a) (Float b) = (a > b)"
| "float_gt (Float a) PosInf = False"
| "float_gt (Float a) NegInf = True"
| "float_gt PosInf PosInf = False"
| "float_gt PosInf _ = True"
| "float_gt NegInf _ = False"

text \<open>A metric function: its \<^verbatim>\<open>__name__\<close> and what calling it on (y, result) does.\<close>

record 'o metric =
  fn_name :: string
  fn_call :: "addr \<Rightarrow> addr \<Rightarrow> (pyfloat, 'o) extern"

text \<open>
  What the Conveyor uses of pandas, of the stage and estimator protocols and of the
  interpreter.  A stage method gets the address of the stage and of its arguments; it may
  change the store and returns the address of its result.
\<close>

record 'o py =
  pd_DataFrame :: "'o"
  pd_empty :: "'o \<Rightarrow> bool"
  class_name :: "'o \<Rightarrow> string"
  block_fit :: "addr \<Rightarrow> addr \<Rightarrow> addr \<Rightarrow> (addr, 'o) extern"
  block_transform :: "addr \<Rightarrow> addr \<Rightarrow> (addr, 'o) extern"
  has_target_transform :: "'o \<Rightarrow> bool"
  block_target_transform :: "addr \<Rightarrow> addr \<Rightarrow> (addr, 'o) extern"
  estimator_fit :: "addr \<Rightarrow> addr \<Rightarrow> addr \<Rightarrow> (addr, 'o) extern"
  estimator_predict :: "addr \<Rightarrow> addr \<Rightarrow> (addr, 'o) extern"
  py_eval :: "string \<Rightarrow> exn + 'o metric"
  py_format :: "pyfloat \<Rightarrow> string"
  py_repr :: "'o \<Rightarrow> string"

text \<open>
  Modelled from the spec: the progress reporter (\<^verbatim>\<open>ProgressBar\<close> and
  \<^verbatim>\<open>ProgressFitModel\<close> of \<^verbatim>\<open>amlpp.additional\<close>, not among the sources).  Its interface is
  "advance one unit" and "annotate current stage/model name"; it is purely observational
  and has no effect on control flow.
\<close>

definition pbar_create :: "int \<Rightarrow> (unit, 'o) action" where
  "pbar_create n = emit (PbarCreate n)"

definition pbar_set_postfix :: "string \<Rightarrow> string \<Rightarrow> (unit, 'o) action" where
  "pbar_set_postfix k v = emit (PbarPostfix k v)"

definition pbar_update :: "(unit, 'o) action" where
  "pbar_update = emit PbarUpdate"

section \<open>The Conveyor\<close>

text \<open>\<^verbatim>\<open>self.blocks\<close> and \<^verbatim>\<open>self.estimator\<close> (\<open>None\<close> is Python's \<^verbatim>\<open>None\<close>).\<close>

record conveyor =
  blocks :: "addr list"
  estimator :: "addr option"

text \<open>The message of Python's \<^verbatim>\<open>AttributeError\<close>; \<open>CHR 0x27\<close> is the single quote.\<close>

definition attribute_error :: "string \<Rightarrow> string \<Rightarrow> exn" where
  "attribute_error cls attr =
     Exn ''AttributeError''
       ([CHR 0x27] @ cls @ [CHR 0x27] @ '' object has no attribute '' @ [CHR 0x27] @ attr @ [CHR 0x27])"

text \<open>
  \<^verbatim>\<open>_transform\<close> (lines 75-82; the leading underscore is written \<open>u_\<close>):
  \<^verbatim>\<open>X = block.transform(X)\<close>, then \<^verbatim>\<open>Y = block.target_transform(Y)\<close> if
  \<^verbatim>\<open>not Y.empty and 'target_transform' in dir(block)\<close>.
\<close>

definition u_transform :: "'o py \<Rightarrow> addr \<Rightarrow> addr \<Rightarrow> addr \<Rightarrow> (addr \<times> addr, 'o) action" where
  "u_transform py block X Y =
     andthen (invoke (BlockTransform block) (block_transform py block X)) (\<lambda>X'.
       (\<lambda>w. if \<not> pd_empty py (heap w ! Y) \<and> has_target_transform py (heap w ! block)
            then andthen (invoke (BlockTargetTransform block) (block_target_transform py block Y))
                   (\<lambda>Y'. ret (X', Y')) w
            else ret (X', Y) w))"

text \<open>The loop of \<^verbatim>\<open>transform\<close> (lines 71-72).\<close>

fun transform_blocks :: "'o py \<Rightarrow> addr list \<Rightarrow> addr \<Rightarrow> addr \<Rightarrow> (addr \<times> addr, 'o) action" where
  "transform_blocks py [] X Y = ret (X, Y)"
| "transform_blocks py (block # rest) X Y =
     andthen (u_transform py block X Y) (\<lambda>(X', Y'). transform_blocks py rest X' Y')"

text \<open>
  \<^verbatim>\<open>transform\<close> (lines 67-73).  \<open>Y = None\<close> is the call without a target: the default
  argument \<^verbatim>\<open>pd.DataFrame()\<close> is reachable from nowhere else and is copied before use, so
  its copy is a new object with the content of \<^verbatim>\<open>pd.DataFrame()\<close>.
\<close>

definition transform :: "'o py \<Rightarrow> conveyor \<Rightarrow> addr \<Rightarrow> addr option \<Rightarrow> (addr \<times> addr, 'o) action" where
  "transform py self X Y =
     andthen (copy X) (\<lambda>X'.
     andthen (case Y of Some y \<Rightarrow> copy y | None \<Rightarrow> alloc (pd_DataFrame py)) (\<lambda>Y'.
     transform_blocks py (blocks self) X' Y'))"

text \<open>The loop of \<^verbatim>\<open>fit_transform\<close> (lines 55-58).\<close>

fun fit_blocks :: "'o py \<Rightarrow> addr list \<Rightarrow> addr \<Rightarrow> addr \<Rightarrow> (addr \<times> addr, 'o) action" where
  "fit_blocks py [] X Y = ret (X, Y)"
| "fit_blocks py (block # rest) X Y =
     andthen (\<lambda>w. pbar_set_postfix ''transform'' (class_name py (heap w ! block)) w) (\<lambda>_.
     andthen (invoke (BlockFit block) (block_fit py block X Y)) (\<lambda>fitted.
     andthen (u_transform py fitted X Y) (\<lambda>(X', Y').
     andthen pbar_update (\<lambda>_.
     fit_blocks py rest X' Y'))))"

text \<open>\<^verbatim>\<open>self.estimator.fit(X_, Y_)\<close> of lines 61-63, with its progress report.\<close>

definition fit_estimator :: "'o py \<Rightarrow> conveyor \<Rightarrow> addr \<Rightarrow> addr \<Rightarrow> (unit, 'o) action" where
  "fit_estimator py self X Y =
     (case estimator self of
        None \<Rightarrow>
          andthen (pbar_set_postfix ''transform'' ''NoneType'') (\<lambda>_.
          throw (attribute_error ''NoneType'' ''fit''))
      | Some e \<Rightarrow>
          andthen (\<lambda>w. pbar_set_postfix ''transform'' (class_name py (heap w ! e)) w) (\<lambda>_.
          andthen (invoke (EstimatorFit e) (estimator_fit py e X Y)) (\<lambda>_.
          pbar_update)))"

text \<open>\<^verbatim>\<open>fit_transform\<close> (lines 51-64) and \<^verbatim>\<open>fit\<close> (lines 48-49).\<close>

definition fit_transform ::
  "'o py \<Rightarrow> conveyor \<Rightarrow> addr \<Rightarrow> addr \<Rightarrow> bool \<Rightarrow> (addr \<times> addr, 'o) action" where
  "fit_transform py self X Y with_estimator =
     andthen (copy X) (\<lambda>X'.
     andthen (copy Y) (\<lambda>Y'.
     andthen (pbar_create (int (length (blocks self)) + (if with_estimator then 1 else 0))) (\<lambda>_.
     andthen (fit_blocks py (blocks self) X' Y') (\<lambda>(X', Y').
     if with_estimator
     then andthen (fit_estimator py self X' Y') (\<lambda>_. ret (X', Y'))
     else ret (X', Y')))))"

definition fit :: "'o py \<Rightarrow> conveyor \<Rightarrow> addr \<Rightarrow> addr \<Rightarrow> (unit, 'o) action" where
  "fit py self X Y = andthen (fit_transform py self X Y True) (\<lambda>_. ret ())"


text \<open>
  \<^verbatim>\<open>_get_score\<close> (lines 115-119).  The f-string is built inside the \<^verbatim>\<open>try\<close>, so the
  metric's exception is caught there and formatted with \<^verbatim>\<open>str(e)\<close>; \<open>py_format\<close> is
  Python's formatting of the metric's value.  The store the metric leaves is kept in both
  cases.
\<close>

definition u_get_score :: "'o py \<Rightarrow> 'o metric \<Rightarrow> addr \<Rightarrow> addr \<Rightarrow> (string, 'o) action" where
  "u_get_score py func y result w =
     (case invoke (MetricEval (fn_name func)) (fn_call func y result) w of
        (Inr v, w') \<Rightarrow>
          (Inr (''function - '' @ fn_name func @ '' = '' @ py_format py v @ [CHR 0x0A]), w')
      | (Inl e, w') \<Rightarrow>
          (Inr (''function - '' @ fn_name func @ '' = ERROR: '' @ exn_msg e @ [CHR 0x0A]), w'))"

text \<open>
  The two loops of \<^verbatim>\<open>score\<close> (lines 105-108): the names of \<^verbatim>\<open>sklearn_function\<close> are
  resolved by \<^verbatim>\<open>eval\<close> one at a time, outside any \<^verbatim>\<open>try\<close>.
\<close>

fun score_sklearn ::
  "'o py \<Rightarrow> string list \<Rightarrow> addr \<Rightarrow> addr \<Rightarrow> string \<Rightarrow> (string, 'o) action" where
  "score_sklearn py [] Y result score = ret score"
| "score_sklearn py (func # rest) Y result score =
     (case py_eval py func of
        Inl e \<Rightarrow> throw e
      | Inr f \<Rightarrow>
          andthen (u_get_score py f Y result) (\<lambda>line.
          score_sklearn py rest Y result (score @ line)))"

fun score_precision ::
  "'o py \<Rightarrow> 'o metric list \<Rightarrow> addr \<Rightarrow> addr \<Rightarrow> string \<Rightarrow> (string, 'o) action" where
  "score_precision py [] Y result score = ret score"
| "score_precision py (func # rest) Y result score =
     andthen (u_get_score py func Y result) (\<lambda>line.
     score_precision py rest Y result (score @ line))"

text \<open>
  Lines 101-102 of \<^verbatim>\<open>score\<close>: the transformed target and the predictions that every
  metric is evaluated on.
\<close>

definition score_data :: "'o py \<Rightarrow> conveyor \<Rightarrow> addr \<Rightarrow> addr \<Rightarrow> (addr \<times> addr, 'o) action" where
  "score_data py self X Y =
     andthen (copy X) (\<lambda>Xc.
     andthen (copy Y) (\<lambda>Yc.
     andthen (transform py self Xc (Some Yc)) (\<lambda>(X', Y').
     andthen (case estimator self of
                None \<Rightarrow> throw (attribute_error ''NoneType'' ''predict'')
              | Some e \<Rightarrow> invoke (EstimatorPredict e) (estimator_predict py e X')) (\<lambda>result.
     ret (Y', result)))))"

text \<open>
  \<^verbatim>\<open>score\<close> (lines 89-113).  With \<^verbatim>\<open>_return\<close> the result is the triple, otherwise the
  report is printed and the result is \<^verbatim>\<open>None\<close>.
\<close>

definition score ::
  "'o py \<Rightarrow> conveyor \<Rightarrow> addr \<Rightarrow> addr \<Rightarrow> string list \<Rightarrow> 'o metric list \<Rightarrow> bool \<Rightarrow>
     ((string \<times> addr \<times> addr) option, 'o) action" where
  "score py self X Y sklearn_function precision_function return =
     andthen (score_data py self X Y) (\<lambda>(Y', result).
     andthen (score_sklearn py sklearn_function Y' result []) (\<lambda>score1.
     andthen (score_precision py precision_function Y' result score1) (\<lambda>score2.
     if return then ret (Some (score2, result, Y'))
     else andthen (emit (Print score2)) (\<lambda>_. ret None))))"

section \<open>The search tracks and the champion\<close>

text \<open>
  A hyperparameter dictionary, the dictionary of Optuna options (\<^verbatim>\<open>n_trials\<close>,
  \<^verbatim>\<open>n_jobs\<close>, \<^verbatim>\<open>show_progress_bar\<close>; Python's \<^verbatim>\<open>False\<close> is the integer 0), and
  \<^verbatim>\<open>{**defaults, **params}\<close>, in which the right operand wins.
\<close>

type_synonym 'v kwargs = "(string \<times> 'v) list"
type_synonym optuna_params = "string \<rightharpoonup> int"

definition default_params :: optuna_params where
  "default_params = [''n_trials'' \<mapsto> 100, ''n_jobs'' \<mapsto> - 1, ''show_progress_bar'' \<mapsto> 0]"

text \<open>
  The value under \<^verbatim>\<open>"model"\<close> of a \<^verbatim>\<open>best_model\<close> dictionary: a class of the catalog, or
  Python's builtin \<^verbatim>\<open>object\<close>, the placeholder of line 202.
\<close>

datatype 'f model_class = PyObject | Family 'f

record ('f, 'v) model_dict =
  model :: "'f model_class"
  params :: "'v kwargs"
  best_value :: pyfloat

record params_columns =
  feature_name :: "string list"
  early_stopping_rounds :: int
  verbose :: bool
  categorical_feature :: "string list"

text \<open>
  What the tracks use from outside the file: scikit-learn's \<^verbatim>\<open>train_test_split\<close>, the
  catalogs \<^verbatim>\<open>sklearn_models\<close> and \<^verbatim>\<open>lightgbm_models\<close> of \<^verbatim>\<open>amlpp.fit_model\<close> (the
  catalog in its iteration order), Optuna and the model classes.  A study is
  \<^verbatim>\<open>create_study\<close>, \<^verbatim>\<open>optimize\<close> and the reads of \<^verbatim>\<open>best_params\<close> and
  \<^verbatim>\<open>best_value\<close> taken together: it returns both or raises.  A fit is the construction
  of the class with the hyperparameters followed by \<^verbatim>\<open>.fit\<close>, and returns what
  \<^verbatim>\<open>.fit\<close> returns.
\<close>

record ('o, 'f, 'v) engines =
  pd_columns :: "'o \<Rightarrow> string list"
  train_test_split :: "addr \<Rightarrow> addr \<Rightarrow> (addr \<times> addr \<times> addr \<times> addr, 'o) extern"
  sklearn_models :: "'f list"
  lightgbm_model :: "'f"
  family_name :: "'f \<Rightarrow> string"
  kwargs_str :: "'v kwargs \<Rightarrow> string"
  sklearn_study ::
    "'f \<Rightarrow> addr \<Rightarrow> addr \<Rightarrow> addr \<Rightarrow> addr \<Rightarrow> 'o metric \<Rightarrow> optuna_params \<Rightarrow>
       ('v kwargs \<times> pyfloat, 'o) extern"
  sklearn_fit :: "'f \<Rightarrow> 'v kwargs \<Rightarrow> addr \<Rightarrow> addr \<Rightarrow> (addr, 'o) extern"
  lgbm_study ::
    "addr \<Rightarrow> addr \<Rightarrow> addr \<Rightarrow> addr \<Rightarrow> 'o metric \<Rightarrow> optuna_params \<Rightarrow> params_columns \<Rightarrow>
       ('v kwargs \<times> pyfloat, 'o) extern"
  lgbm_fit :: "'v kwargs \<Rightarrow> addr \<Rightarrow> addr \<Rightarrow> addr \<Rightarrow> addr \<Rightarrow> params_columns \<Rightarrow> (addr, 'o) extern"
  pickle_dump :: "conveyor \<Rightarrow> (unit, 'o) extern"

text \<open>\<^verbatim>\<open>_repr_dict_model\<close> (lines 245-248).\<close>

definition u_repr_dict_model ::
  "'o py \<Rightarrow> ('o, 'f, 'v) engines \<Rightarrow> ('f, 'v) model_dict \<Rightarrow> (unit, 'o) action" where
  "u_repr_dict_model py eng d =
     (let s1 = butlast (tl (kwargs_str eng (params d)));
          s2 = concat (map (\<lambda>c. if c = CHR '':'' then '' ='' else [c]) s1);
          s3 = filter (\<lambda>c. c \<noteq> CHR 0x27) s2;
          name = (case model d of PyObject \<Rightarrow> ''object'' | Family f \<Rightarrow> family_name eng f)
      in emit (Print (name @ ''('' @ s3 @ '')'' @ [CHR 0x0A] @ ''best_value = '' @
                      py_format py (best_value d))))"

text \<open>
  The \<^verbatim>\<open>for\<close> loop of \<^verbatim>\<open>fit_sklearn_model\<close> (lines 206-214).  The loop stands inside
  the \<^verbatim>\<open>try\<close>: an exception raised in an iteration ends the loop, and \<^verbatim>\<open>best_model\<close>
  keeps the value it had.  The result is the exception, if any, and \<^verbatim>\<open>best_model\<close>.
\<close>

fun sklearn_loop ::
  "('o, 'f, 'v) engines \<Rightarrow> 'f list \<Rightarrow> addr \<Rightarrow> addr \<Rightarrow> addr \<Rightarrow> addr \<Rightarrow> 'o metric \<Rightarrow>
     optuna_params \<Rightarrow> ('f, 'v) model_dict \<Rightarrow> 'o world \<Rightarrow>
     (exn option \<times> ('f, 'v) model_dict) \<times> 'o world" where
  "sklearn_loop eng [] X Y X_test Y_test rating_func ps best_model w = ((None, best_model), w)"
| "sklearn_loop eng (family # rest) X Y X_test Y_test rating_func ps best_model w =
     (case andthen (pbar_set_postfix ''model'' (family_name eng family)) (\<lambda>_.
             invoke (StudyOptimize (family_name eng family))
               (sklearn_study eng family X Y X_test Y_test rating_func ps)) w of
        (Inl e, w') \<Rightarrow> ((Some e, best_model), w')
      | (Inr (best_params, v), w') \<Rightarrow>
          sklearn_loop eng rest X Y X_test Y_test rating_func ps
            (if float_gt v (best_value best_model)
             then \<lparr>model = Family family, params = best_params, best_value = v\<rparr>
             else best_model) w')"

text \<open>The body of the \<^verbatim>\<open>try\<close> (lines 205-214).\<close>

definition sklearn_try ::
  "('o, 'f, 'v) engines \<Rightarrow> addr \<Rightarrow> addr \<Rightarrow> addr \<Rightarrow> addr \<Rightarrow> 'o metric \<Rightarrow>
     optuna_params \<Rightarrow> ('f, 'v) model_dict \<Rightarrow> 'o world \<Rightarrow>
     (exn option \<times> ('f, 'v) model_dict) \<times> 'o world" where
  "sklearn_try eng X Y X_test Y_test rating_func ps best_model w =
     (case ps ''n_trials'' of
        None \<Rightarrow> ((Some (Exn ''KeyError'' ''n_trials''), best_model), w)
      | Some n \<Rightarrow>
          (case pbar_create (n * int (length (sklearn_models eng))) w of
             (_, w1) \<Rightarrow>
               sklearn_loop eng (sklearn_models eng) X Y X_test Y_test rating_func ps best_model w1))"

text \<open>
  \<^verbatim>\<open>best_model['model'](**best_model['params']).fit(X, Y)\<close> (line 218): an instance of
  \<^verbatim>\<open>object\<close> has no attribute \<^verbatim>\<open>fit\<close>, and \<^verbatim>\<open>object\<close> takes no keyword arguments.
\<close>

definition instantiate_fit ::
  "('o, 'f, 'v) engines \<Rightarrow> 'f model_class \<Rightarrow> 'v kwargs \<Rightarrow> addr \<Rightarrow> addr \<Rightarrow> (addr, 'o) action" where
  "instantiate_fit eng cls kw X Y =
     (case cls of
        PyObject \<Rightarrow>
          (if kw = [] then throw (attribute_error ''object'' ''fit'')
           else throw (Exn ''TypeError'' ''object() takes no arguments''))
      | Family f \<Rightarrow> invoke (ModelFit (family_name eng f)) (sklearn_fit eng f kw X Y))"

text \<open>Lines 218-221: the refit of the best pair and its predictions.\<close>

definition sklearn_refit ::
  "'o py \<Rightarrow> ('o, 'f, 'v) engines \<Rightarrow> addr \<Rightarrow> addr \<Rightarrow> addr \<Rightarrow> ('f, 'v) model_dict \<Rightarrow>
     (addr \<times> addr, 'o) action" where
  "sklearn_refit py eng X Y X_test best_model =
     andthen (instantiate_fit eng (model best_model) (params best_model) X Y) (\<lambda>m.
     andthen (invoke (EstimatorPredict m) (estimator_predict py m X_test)) (\<lambda>result.
     andthen (u_repr_dict_model py eng best_model) (\<lambda>_.
     ret (m, result))))"

text \<open>
  \<^verbatim>\<open>fit_sklearn_model\<close> (lines 198-221).  \<^verbatim>\<open>except: pass\<close> drops the exception of the
  \<^verbatim>\<open>try\<close>; lines 218-221 run in every case.
\<close>

definition fit_sklearn_model ::
  "'o py \<Rightarrow> ('o, 'f, 'v) engines \<Rightarrow> addr \<Rightarrow> addr \<Rightarrow> addr \<Rightarrow> addr \<Rightarrow> 'o metric \<Rightarrow>
     optuna_params \<Rightarrow> (addr \<times> addr, 'o) action" where
  "fit_sklearn_model py eng X Y X_test Y_test rating_func optuna =
     (\<lambda>w. case sklearn_try eng X Y X_test Y_test rating_func (default_params ++ optuna)
                 \<lparr>model = PyObject, params = [], best_value = Float 0\<rparr> w of
        ((_, best_model), w1) \<Rightarrow> sklearn_refit py eng X Y X_test best_model w1)"

text \<open>\<^verbatim>\<open>fit_lgbm_model\<close> (lines 223-243).\<close>

definition fit_lgbm_model ::
  "'o py \<Rightarrow> ('o, 'f, 'v) engines \<Rightarrow> addr \<Rightarrow> addr \<Rightarrow> addr \<Rightarrow> addr \<Rightarrow> 'o metric \<Rightarrow>
     optuna_params \<Rightarrow> string list \<Rightarrow> (addr \<times> addr, 'o) action" where
  "fit_lgbm_model py eng X Y X_test Y_test rating_func optuna categorical_columns =
     (\<lambda>w.
       let ps = default_params ++ optuna;
           names = pd_columns eng (heap w ! X);
           pc = \<lparr>feature_name = names, early_stopping_rounds = 300, verbose = False,
                 categorical_feature = filter (\<lambda>col. col \<in> set names) categorical_columns\<rparr>
       in (case ps ''n_trials'' of
             None \<Rightarrow> throw (Exn ''KeyError'' ''n_trials'')
           | Some n \<Rightarrow>
               andthen (pbar_create n) (\<lambda>_.
               andthen (pbar_set_postfix ''model'' ''LGBMORegressor'') (\<lambda>_.
               andthen (invoke (StudyOptimize (family_name eng (lightgbm_model eng)))
                          (lgbm_study eng X Y X_test Y_test rating_func ps pc)) (\<lambda>(best_params, v).
               andthen (invoke (ModelFit (family_name eng (lightgbm_model eng)))
                          (lgbm_fit eng best_params X Y X_test Y_test pc)) (\<lambda>m.
               andthen (invoke (EstimatorPredict m) (estimator_predict py m X_test)) (\<lambda>result.
               andthen (u_repr_dict_model py eng
                          \<lparr>model = Family (lightgbm_model eng), params = best_params,
                           best_value = v\<rparr>) (\<lambda>_.
               ret (m, result)))))))) w)"

text \<open>
  Lines 174-179 of \<^verbatim>\<open>fit_model\<close>: the data handed to both tracks.  The tuple assignment
  \<^verbatim>\<open>X_test, X_test, Y_test, Y_test = train_test_split(X_train, Y_train, ...)\<close> binds its
  targets from left to right, so \<^verbatim>\<open>X_test\<close> and \<^verbatim>\<open>Y_test\<close> end as the second and fourth
  component and \<^verbatim>\<open>X_train\<close>, \<^verbatim>\<open>Y_train\<close> stay what \<^verbatim>\<open>fit_transform\<close> returned.
\<close>

definition fit_model_data ::
  "'o py \<Rightarrow> ('o, 'f, 'v) engines \<Rightarrow> conveyor \<Rightarrow> addr \<Rightarrow> addr \<Rightarrow> addr option \<Rightarrow> addr option \<Rightarrow>
     (addr \<times> addr \<times> addr \<times> addr, 'o) action" where
  "fit_model_data py eng self X Y X_test Y_test =
     andthen (fit_transform py self X Y False) (\<lambda>(X_train, Y_train).
     andthen (case (X_test, Y_test) of
                (Some xt, Some yt) \<Rightarrow> transform py self xt (Some yt)
              | _ \<Rightarrow>
                  andthen (foreign (train_test_split eng X_train Y_train)) (\<lambda>(s1, s2, s3, s4).
                  ret (s2, s4))) (\<lambda>(X_test', Y_test').
     ret (X_train, Y_train, X_test', Y_test')))"

text \<open>
  Lines 181-190: the two tracks, each followed by the rating of its predictions with the
  same function on the same \<^verbatim>\<open>Y_test\<close>.
\<close>

definition fit_model_tracks ::
  "'o py \<Rightarrow> ('o, 'f, 'v) engines \<Rightarrow> addr \<Rightarrow> addr \<Rightarrow> addr \<Rightarrow> addr \<Rightarrow> 'o metric \<Rightarrow>
     optuna_params \<Rightarrow> string list \<Rightarrow> (addr \<times> pyfloat \<times> addr \<times> pyfloat, 'o) action" where
  "fit_model_tracks py eng X_train Y_train X_test Y_test rating_func optuna categorical_columns =
     andthen (fit_lgbm_model py eng X_train Y_train X_test Y_test rating_func optuna
                categorical_columns) (\<lambda>(lgb_model, result).
     andthen (invoke (MetricEval (fn_name rating_func)) (fn_call rating_func Y_test result))
       (\<lambda>lgb_score.
     andthen (fit_sklearn_model py eng X_train Y_train X_test Y_test rating_func optuna)
       (\<lambda>(tpot_model, result).
     andthen (invoke (MetricEval (fn_name rating_func)) (fn_call rating_func Y_test result))
       (\<lambda>tpot_score.
     ret (lgb_model, lgb_score, tpot_model, tpot_score)))))"

text \<open>
  \<^verbatim>\<open>fit_model\<close> (lines 168-196).  The result carries the Conveyor as the call leaves it:
  line 192 assigns \<^verbatim>\<open>self.estimator\<close> before the model is printed and pickled.
  \<^verbatim>\<open>time.sleep\<close> changes nothing that is modelled.
\<close>

definition fit_model ::
  "'o py \<Rightarrow> ('o, 'f, 'v) engines \<Rightarrow> conveyor \<Rightarrow> addr \<Rightarrow> addr \<Rightarrow> addr option \<Rightarrow> addr option \<Rightarrow>
     string \<Rightarrow> optuna_params \<Rightarrow> string list \<Rightarrow> 'o world \<Rightarrow> (exn + unit) \<times> conveyor \<times> 'o world" where
  "fit_model py eng self X Y X_test Y_test rating_func optuna categorical_columns w =
     (case py_eval py rating_func of
        Inl e \<Rightarrow> (Inl e, self, w)
      | Inr rf \<Rightarrow>
          (case andthen (fit_model_data py eng self X Y X_test Y_test)
                  (\<lambda>(X_train, Y_train, X_test', Y_test').
                     fit_model_tracks py eng X_train Y_train X_test' Y_test' rf optuna
                       categorical_columns) w of
             (Inl e, w1) \<Rightarrow> (Inl e, self, w1)
           | (Inr (lgb_model, lgb_score, tpot_model, tpot_score), w1) \<Rightarrow>
               (let self' = self\<lparr>estimator :=
                      Some (if float_gt tpot_score lgb_score then tpot_model else lgb_model)\<rparr>
                in case andthen (\<lambda>w. emit (Print (replicate 100 (CHR ''*'') @ '' '' @ [CHR 0x0A] @
                                   ''Best model = '' @
                                   py_repr py (heap w ! the (estimator self')))) w) (\<lambda>_.
                        foreign (pickle_dump eng self')) w1 of
                     (r, w2) \<Rightarrow> (r, self', w2))))"

section \<open>Vocabulary of the properties\<close>



text \<open>The calls that fit something, and the progress reports.\<close>

fun milestone :: "event \<Rightarrow> bool" where
  "milestone (BlockFit b) = True"
| "milestone (EstimatorFit e) = True"
| "milestone PbarUpdate = True"
| "milestone _ = False"

text \<open>
  Python code reaches only the objects it is handed, those it creates and those it kept
  from earlier calls.  A callee is \<^emph>\<open>local\<close> in the objects \<open>A\<close> it is handed when it
  changes no other existing object and returns one of them or a new one; objects are
  never removed.  A stage that is local in its receiver and arguments is one that does
  not retain and mutate references beyond the data passed to it.
\<close>

definition local_call :: "addr set \<Rightarrow> (addr, 'o) extern \<Rightarrow> bool" where
  "local_call A f =
     (\<forall>h. (\<forall>a\<in>A. a < length h) \<longrightarrow>
        (case f h of (r, h') \<Rightarrow>
           length h \<le> length h' \<and>
           (\<forall>a<length h. a \<notin> A \<longrightarrow> h' ! a = h ! a) \<and>
           (case r of Inl e \<Rightarrow> True | Inr x \<Rightarrow> x < length h' \<and> (x \<in> A \<or> length h \<le> x))))"

definition local_fit :: "'o py \<Rightarrow> bool" where
  "local_fit py = (\<forall>b X Y. local_call {b, X, Y} (block_fit py b X Y))"

definition local_transform :: "'o py \<Rightarrow> bool" where
  "local_transform py = (\<forall>b X. local_call {b, X} (block_transform py b X))"

definition local_target_transform :: "'o py \<Rightarrow> bool" where
  "local_target_transform py = (\<forall>b Y. local_call {b, Y} (block_target_transform py b Y))"

definition local_estimator_fit :: "'o py \<Rightarrow> bool" where
  "local_estimator_fit py = (\<forall>e X Y. local_call {e, X, Y} (estimator_fit py e X Y))"

text \<open>
  A stage whose \<^verbatim>\<open>fit\<close> works in place: it changes the stage and nothing else, and
  returns the stage itself (the scikit-learn convention \<^verbatim>\<open>return self\<close>).
\<close>

definition fit_in_place :: "'o py \<Rightarrow> bool" where
  "fit_in_place py =
     (\<forall>b X Y. local_call {b} (block_fit py b X Y) \<and>
        (\<forall>h r h'. block_fit py b X Y h = (Inr r, h') \<longrightarrow> r = b))"

text \<open>
  A method \<open>f\<close> of a stage is a pure function \<open>T\<close> of the fitted state and its argument:
  it leaves the stage alone, it may work in place on the table it is handed, it returns
  that table or a new one, the content of what it returns is \<open>T state content\<close>, and
  it raises exactly where \<open>T\<close> is undefined.
\<close>

definition pure_call :: "('o \<Rightarrow> 'o \<Rightarrow> 'o option) \<Rightarrow> (addr \<Rightarrow> addr \<Rightarrow> (addr, 'o) extern) \<Rightarrow> bool" where
  "pure_call T f =
     (\<forall>b X h. b < length h \<longrightarrow> X < length h \<longrightarrow>
        (case f b X h of (r, h') \<Rightarrow>
           length h \<le> length h' \<and>
           (\<forall>a<length h. a \<noteq> X \<longrightarrow> h' ! a = h ! a) \<and>
           (case r of
              Inl e \<Rightarrow> T (h ! b) (h ! X) = None
            | Inr x \<Rightarrow> x < length h' \<and> (x = X \<or> length h \<le> x) \<and>
                       T (h ! b) (h ! X) = Some (h' ! x))))"

text \<open>What a chain of pure stages with states \<open>ss\<close> computes from the contents (x, y).\<close>

definition chain_step ::
  "'o py \<Rightarrow> ('o \<Rightarrow> 'o \<Rightarrow> 'o option) \<Rightarrow> ('o \<Rightarrow> 'o \<Rightarrow> 'o option) \<Rightarrow> 'o \<Rightarrow> 'o \<times> 'o \<Rightarrow> ('o \<times> 'o) option" where
  "chain_step py T TT s xy =
     (case T s (fst xy) of
        None \<Rightarrow> None
      | Some x' \<Rightarrow>
          if \<not> pd_empty py (snd xy) \<and> has_target_transform py s
          then (case TT s (snd xy) of None \<Rightarrow> None | Some y' \<Rightarrow> Some (x', y'))
          else Some (x', snd xy))"

fun chain ::
  "'o py \<Rightarrow> ('o \<Rightarrow> 'o \<Rightarrow> 'o option) \<Rightarrow> ('o \<Rightarrow> 'o \<Rightarrow> 'o option) \<Rightarrow> 'o list \<Rightarrow> 'o \<times> 'o \<Rightarrow> ('o \<times> 'o) option" where
  "chain py T TT [] xy = Some xy"
| "chain py T TT (s # ss) xy =
     (case chain_step py T TT s xy of None \<Rightarrow> None | Some xy' \<Rightarrow> chain py T TT ss xy')"



section \<open>A small concrete world\<close>

text \<open>
  Objects for running the model: a one-column table, a stage \<^verbatim>\<open>Center\<close> that learns the
  first row and subtracts it in place, a stateless stage \<^verbatim>\<open>Flip\<close> whose
  \<^verbatim>\<open>target_transform\<close> negates the target, and an estimator \<^verbatim>\<open>Const\<close> that learns the
  first target and adds it to every row.
\<close>

datatype obj = Frame "int list" | Center "int option" | Flip | Const "int option"

definition exact_match :: "obj metric" where
  "exact_match = \<lparr>fn_name = ''exact_match'',
     fn_call = (\<lambda>y r h. (case (h ! y, h ! r) of
        (Frame ys, Frame rs) \<Rightarrow> (Inr (Float (if ys = rs then 1 else 0)), h)
      | _ \<Rightarrow> (Inl (Exn ''TypeError'' ''expected two tables''), h)))\<rparr>"

definition label_ranking :: "obj metric" where
  "label_ranking = \<lparr>fn_name = ''label_ranking'',
     fn_call = (\<lambda>y r h. (Inl (Exn ''ValueError'' ''continuous format is not supported''), h))\<rparr>"

definition demo_format :: "pyfloat \<Rightarrow> string" where
  "demo_format v =
     (if v = Float 1 then ''1.0'' else if v = Float 0 then ''0.0''
      else if v = NaN then ''nan'' else ''_'')"

definition demo_eval :: "string \<Rightarrow> exn + obj metric" where
  "demo_eval name =
     (if name = ''exact_match'' then Inr exact_match
      else if name = ''label_ranking'' then Inr label_ranking
      else Inl (Exn ''NameError'' name))"

definition demo_fit :: "addr \<Rightarrow> addr \<Rightarrow> addr \<Rightarrow> (addr, obj) extern" where
  "demo_fit b X Y h =
     (case h ! b of
        Center _ \<Rightarrow>
          (case h ! X of
             Frame (x # xs) \<Rightarrow> (Inr b, h[b := Center (Some x)])
           | _ \<Rightarrow> (Inl (Exn ''ValueError'' ''no rows''), h))
      | Flip \<Rightarrow> (Inr b, h)
      | _ \<Rightarrow> (Inl (Exn ''AttributeError'' ''fit''), h))"

definition demo_transform :: "addr \<Rightarrow> addr \<Rightarrow> (addr, obj) extern" where
  "demo_transform b X h =
     (case h ! b of
        Center (Some k) \<Rightarrow>
          (case h ! X of
             Frame xs \<Rightarrow> (Inr X, h[X := Frame (map (\<lambda>x. x - k) xs)])
           | _ \<Rightarrow> (Inl (Exn ''TypeError'' ''not a table''), h))
      | Center None \<Rightarrow> (Inl (Exn ''NotFittedError'' ''Center''), h)
      | Flip \<Rightarrow> (Inr X, h)
      | _ \<Rightarrow> (Inl (Exn ''AttributeError'' ''transform''), h))"

definition demo_target_transform :: "addr \<Rightarrow> addr \<Rightarrow> (addr, obj) extern" where
  "demo_target_transform b Y h =
     (case h ! b of
        Flip \<Rightarrow>
          (case h ! Y of
             Frame ys \<Rightarrow> (Inr (length h), h @ [Frame (map uminus ys)])
           | _ \<Rightarrow> (Inl (Exn ''TypeError'' ''not a table''), h))
      | _ \<Rightarrow> (Inl (Exn ''AttributeError'' ''target_transform''), h))"

definition demo_estimator_fit :: "addr \<Rightarrow> addr \<Rightarrow> addr \<Rightarrow> (addr, obj) extern" where
  "demo_estimator_fit e X Y h =
     (case h ! e of
        Const _ \<Rightarrow>
          (case h ! Y of
             Frame (y # ys) \<Rightarrow> (Inr e, h[e := Const (Some y)])
           | _ \<Rightarrow> (Inl (Exn ''ValueError'' ''no rows''), h))
      | _ \<Rightarrow> (Inl (Exn ''AttributeError'' ''fit''), h))"

definition demo_estimator_predict :: "addr \<Rightarrow> addr \<Rightarrow> (addr, obj) extern" where
  "demo_estimator_predict e X h =
     (case h ! e of
        Const (Some c) \<Rightarrow>
          (case h ! X of
             Frame xs \<Rightarrow> (Inr (length h), h @ [Frame (map (\<lambda>x. x + c) xs)])
           | _ \<Rightarrow> (Inl (Exn ''TypeError'' ''not a table''), h))
      | Const None \<Rightarrow> (Inl (Exn ''NotFittedError'' ''Const''), h)
      | _ \<Rightarrow> (Inl (Exn ''AttributeError'' ''predict''), h))"

definition demo_class_name :: "obj \<Rightarrow> string" where
  "demo_class_name v =
     (case v of Frame _ \<Rightarrow> ''DataFrame'' | Center _ \<Rightarrow> ''Center'' | Flip \<Rightarrow> ''Flip''
      | Const _ \<Rightarrow> ''Const'')"

definition demo_py :: "obj py" where
  "demo_py =
     \<lparr>pd_DataFrame = Frame [],
      pd_empty = (\<lambda>v. v = Frame []),
      class_name = demo_class_name,
      block_fit = demo_fit,
      block_transform = demo_transform,
      has_target_transform = (\<lambda>v. v = Flip),
      block_target_transform = demo_target_transform,
      estimator_fit = demo_estimator_fit,
      estimator_predict = demo_estimator_predict,
      py_eval = demo_eval,
      py_format = demo_format,
      py_repr = demo_class_name\<rparr>"

text \<open>
  The pure functions behind the two stages, and a \<^verbatim>\<open>Center\<close> written in the functional
  style: its \<^verbatim>\<open>fit\<close> returns a new fitted stage and leaves the receiver as it was.
\<close>

definition demo_T :: "obj \<Rightarrow> obj \<Rightarrow> obj option" where
  "demo_T s x =
     (case s of
        Center (Some k) \<Rightarrow> (case x of Frame xs \<Rightarrow> Some (Frame (map (\<lambda>x. x - k) xs)) | _ \<Rightarrow> None)
      | Flip \<Rightarrow> Some x
      | _ \<Rightarrow> None)"

definition demo_TT :: "obj \<Rightarrow> obj \<Rightarrow> obj option" where
  "demo_TT s y =
     (case s of
        Flip \<Rightarrow> (case y of Frame ys \<Rightarrow> Some (Frame (map uminus ys)) | _ \<Rightarrow> None)
      | _ \<Rightarrow> None)"

definition fresh_fit :: "addr \<Rightarrow> addr \<Rightarrow> addr \<Rightarrow> (addr, obj) extern" where
  "fresh_fit b X Y h =
     (case h ! b of
        Center _ \<Rightarrow>
          (case h ! X of
             Frame (x # xs) \<Rightarrow> (Inr (length h), h @ [Center (Some x)])
           | _ \<Rightarrow> (Inl (Exn ''ValueError'' ''no rows''), h))
      | Flip \<Rightarrow> (Inr b, h)
      | _ \<Rightarrow> (Inl (Exn ''AttributeError'' ''fit''), h))"

definition fresh_py :: "obj py" where
  "fresh_py = demo_py\<lparr>block_fit := fresh_fit\<rparr>"

text \<open>
  Search engines for running the tracks: three families in the catalog and a booster for
  the tree-ensemble track.  The study of a family returns what the table \<open>outcome\<close>
  says; a fitted model is a \<^verbatim>\<open>Const\<close> that adds the sum of its hyperparameters.  The split
  keeps the last tenth of the rows (rounded up) for the test part, without shuffling.
\<close>

datatype family = Ridge | Forest | Knn | Booster

definition demo_family_name :: "family \<Rightarrow> string" where
  "demo_family_name f =
     (case f of Ridge \<Rightarrow> ''Ridge'' | Forest \<Rightarrow> ''Forest'' | Knn \<Rightarrow> ''Knn''
      | Booster \<Rightarrow> ''Booster'')"

definition demo_split :: "addr \<Rightarrow> addr \<Rightarrow> (addr \<times> addr \<times> addr \<times> addr, obj) extern" where
  "demo_split X Y h =
     (case h ! X of
        Frame xs \<Rightarrow>
          (case h ! Y of
             Frame ys \<Rightarrow>
               (let k = length xs - (length xs + 9) div 10 in
                if k = 0 then (Inl (Exn ''ValueError'' ''the resulting train set will be empty''), h)
                else (Inr (length h, length h + 1, length h + 2, length h + 3),
                      h @ [Frame (take k xs), Frame (drop k xs), Frame (take k ys), Frame (drop k ys)]))
           | _ \<Rightarrow> (Inl (Exn ''TypeError'' ''not a table''), h))
      | _ \<Rightarrow> (Inl (Exn ''TypeError'' ''not a table''), h))"

definition demo_model_fit :: "int kwargs \<Rightarrow> (addr, obj) extern" where
  "demo_model_fit kw h = (Inr (length h), h @ [Const (Some (sum_list (map snd kw)))])"

definition demo_engines ::
  "(family \<Rightarrow> exn + int kwargs \<times> pyfloat) \<Rightarrow> (obj, family, int) engines" where
  "demo_engines outcome =
     \<lparr>pd_columns = (\<lambda>v. [''x'']),
      train_test_split = demo_split,
      sklearn_models = [Ridge, Forest, Knn],
      lightgbm_model = Booster,
      family_name = demo_family_name,
      kwargs_str = (\<lambda>kw. ''{'' @ concat (map (\<lambda>(k, v). k @ '': _, '') kw) @ ''}''),
      sklearn_study = (\<lambda>f X Y X_test Y_test rating_func ps h. (outcome f, h)),
      sklearn_fit = (\<lambda>f kw X Y. demo_model_fit kw),
      lgbm_study = (\<lambda>X Y X_test Y_test rating_func ps pc h. (outcome Booster, h)),
      lgbm_fit = (\<lambda>kw X Y X_test Y_test pc. demo_model_fit kw),
      pickle_dump = (\<lambda>c h. (Inr (), h))\<rparr>"

text \<open>
  Three tables of study outcomes: every study returns; the study of the second family of
  the catalog raises; every study of the catalog raises.
\<close>

definition steady_outcome :: "family \<Rightarrow> exn + int kwargs \<times> pyfloat" where
  "steady_outcome f =
     (case f of
        Ridge \<Rightarrow> Inr ([(''alpha'', - 4)], Float (83 / 100))
      | Forest \<Rightarrow> Inr ([(''trees'', 7)], Float (1 / 2))
      | Knn \<Rightarrow> Inr ([(''k'', 5)], Float (1 / 5))
      | Booster \<Rightarrow> Inr ([(''depth'', 3)], Float (81 / 100)))"

definition broken_outcome :: "family \<Rightarrow> exn + int kwargs \<times> pyfloat" where
  "broken_outcome f =
     (case f of
        Ridge \<Rightarrow> Inr ([(''alpha'', 1)], Float (1 / 2))
      | Forest \<Rightarrow> Inl (Exn ''ValueError'' ''Input contains NaN'')
      | Knn \<Rightarrow> Inr ([(''k'', - 4)], Float (9 / 10))
      | Booster \<Rightarrow> Inr ([(''depth'', 3)], Float (81 / 100)))"

definition failing_outcome :: "family \<Rightarrow> exn + int kwargs \<times> pyfloat" where
  "failing_outcome f =
     (case f of
        Booster \<Rightarrow> Inr ([(''depth'', 3)], Float (81 / 100))
      | _ \<Rightarrow> Inl (Exn ''ValueError'' ''Input contains NaN''))"

text \<open>
  A store with the three collaborators, a feature table and a target, the Conveyor over
  them, and the store after \<^verbatim>\<open>fit\<close>.
\<close>

definition demo_world :: "obj world" where
  "demo_world =
     \<lparr>heap = [Center None, Flip, Const None, Frame [3, 5], Frame [1, 2]], calls = []\<rparr>"

definition demo_conveyor :: conveyor where
  "demo_conveyor = \<lparr>blocks = [0, 1], estimator = Some 2\<rparr>"

definition fitted_world :: "obj world" where
  "fitted_world = snd (fit_transform demo_py demo_conveyor 3 4 True demo_world)"

text \<open>A store for running one track alone: a table of two rows and its target.\<close>

definition track_world :: "obj world" where
  "track_world = \<lparr>heap = [Frame [0, 2], Frame [- 2, 0]], calls = []\<rparr>"

section \<open>Properties\<close>

subsection \<open>Rules for the effects\<close>

text \<open>
  Each rule reads one step of a run off the equation that describes it: what was called,
  which store and which log the step left.
\<close>

lemma local_callD:
  assumes "local_call A f" "f h = (r, h')" "\<forall>a\<in>A. a < length h"
  shows "length h \<le> length h'"
    and "\<And>a. a < length h \<Longrightarrow> a \<notin> A \<Longrightarrow> h' ! a = h ! a"
    and "\<And>x. r = Inr x \<Longrightarrow> x < length h' \<and> (x \<in> A \<or> length h \<le> x)"
proof -
  note * = assms(1)[unfolded local_call_def, rule_format, of h, OF assms(3)[rule_format], unfolded assms(2), simplified]
  from * show "length h \<le> length h'" by simp
  from * show "\<And>a. a < length h \<Longrightarrow> a \<notin> A \<Longrightarrow> h' ! a = h ! a" by simp
  from * show "\<And>x. r = Inr x \<Longrightarrow> x < length h' \<and> (x \<in> A \<or> length h \<le> x)" by simp
qed


lemma andthenE [consumes 1, case_names raised returned]:
  assumes "andthen m f w = (r, w')"
  obtains (raised) e where "m w = (Inl e, w')" "r = Inl e"
  | (returned) a w1 where "m w = (Inr a, w1)" "f a w1 = (r, w')"
proof (cases "m w")
  case (Pair r1 w1)
  show ?thesis
  proof (cases r1)
    case (Inl e)
    with Pair assms have "m w = (Inl e, w')" "r = Inl e" by (simp_all add: andthen_def)
    then show ?thesis by (rule raised)
  next
    case (Inr a)
    with Pair assms have "m w = (Inr a, w1)" "f a w1 = (r, w')" by (simp_all add: andthen_def)
    then show ?thesis by (rule returned)
  qed
qed

lemma invokeD:
  assumes "invoke ev f w = (r, w')"
  shows "f (heap w) = (r, heap w')" and "calls w' = calls w @ [ev]"
proof -
  obtain r1 h1 where f: "f (heap w) = (r1, h1)" by (cases "f (heap w)")
  with assms have "r = r1" "w' = w\<lparr>heap := h1, calls := calls w @ [ev]\<rparr>"
    by (simp_all add: invoke_def)
  with f show "f (heap w) = (r, heap w')" and "calls w' = calls w @ [ev]" by simp_all
qed

lemma invokeI:
  assumes "f (heap w) = (r, h')"
  shows "\<exists>w'. invoke ev f w = (r, w') \<and> heap w' = h' \<and> calls w' = calls w @ [ev]"
  using assms by (simp add: invoke_def)

lemma emitD:
  assumes "emit ev w = (r, w')"
  shows "r = Inr ()" and "heap w' = heap w" and "calls w' = calls w @ [ev]"
  using assms by (auto simp: emit_def)


lemma copyD:
  assumes "copy a w = (r, w')"
  shows "r = Inr (length (heap w))" and "heap w' = heap w @ [heap w ! a]" and "calls w' = calls w"
  using assms by (auto simp: copy_def alloc_def)

lemma retD: "ret a w = (r, w') \<Longrightarrow> r = Inr a \<and> w' = w"
  by (auto simp: ret_def)

lemma throwD: "throw e w = (r, w') \<Longrightarrow> r = Inl e \<and> w' = w"
  by (auto simp: throw_def)

lemma u_transform_cases [consumes 1, case_names raised plain target]:
  assumes "u_transform py b X Y w = (r, w')"
  obtains
    (raised) e where
      "block_transform py b X (heap w) = (Inl e, heap w')"
      "r = Inl e" "calls w' = calls w @ [BlockTransform b]"
  | (plain) X1 where
      "block_transform py b X (heap w) = (Inr X1, heap w')"
      "\<not> (\<not> pd_empty py (heap w' ! Y) \<and> has_target_transform py (heap w' ! b))"
      "r = Inr (X1, Y)" "calls w' = calls w @ [BlockTransform b]"
  | (target) X1 h1 r2 where
      "block_transform py b X (heap w) = (Inr X1, h1)"
      "\<not> pd_empty py (h1 ! Y)" "has_target_transform py (h1 ! b)"
      "block_target_transform py b Y h1 = (r2, heap w')"
      "r = (case r2 of Inl e \<Rightarrow> Inl e | Inr Y1 \<Rightarrow> Inr (X1, Y1))"
      "calls w' = calls w @ [BlockTransform b, BlockTargetTransform b]"
  using assms unfolding u_transform_def
proof (cases rule: andthenE)
  case (raised e)
  from invokeD[OF raised(1)] raised(2) show ?thesis by (intro that(1)[of e]) simp_all
next
  case (returned X1 w1)
  note i1 = invokeD[OF returned(1)]
  show ?thesis
  proof (cases "\<not> pd_empty py (heap w1 ! Y) \<and> has_target_transform py (heap w1 ! b)")
    case False
    with returned(2) have "ret (X1, Y) w1 = (r, w')" by simp
    from retD[OF this] have "r = Inr (X1, Y)" "w' = w1" by simp_all
    with i1 False show ?thesis by (intro that(2)[of X1]) simp_all
  next
    case True
    with returned(2) have
      "andthen (invoke (BlockTargetTransform b) (block_target_transform py b Y)) (\<lambda>Y'. ret (X1, Y')) w1 = (r, w')"
      by simp
    then show ?thesis
    proof (cases rule: andthenE)
      case (raised e)
      from invokeD[OF raised(1)] raised(2) i1 True show ?thesis
        by (intro that(3)[of X1 "heap w1" "Inl e"]) simp_all
    next
      case (returned Y1 w2)
      from retD[OF returned(2)] have "r = Inr (X1, Y1)" "w' = w2" by simp_all
      with invokeD[OF returned(1)] i1 True show ?thesis
        by (intro that(3)[of X1 "heap w1" "Inr Y1"]) simp_all
    qed
  qed
qed


lemma u_transform_calls:
  assumes "u_transform py b X Y w = (r, w')"
  shows "\<exists>f. calls w' = calls w @ BlockTransform b # (if f then [BlockTargetTransform b] else [])"
  using assms
proof (cases rule: u_transform_cases)
  case (raised e)
  then have "calls w' = calls w @ BlockTransform b # (if False then [BlockTargetTransform b] else [])"
    by simp
  then show ?thesis by (rule exI)
next
  case (plain X1)
  then have "calls w' = calls w @ BlockTransform b # (if False then [BlockTargetTransform b] else [])"
    by simp
  then show ?thesis by (rule exI)
next
  case (target X1 h1 r2)
  then have "calls w' = calls w @ BlockTransform b # (if True then [BlockTargetTransform b] else [])"
    by simp
  then show ?thesis by (rule exI)
qed






lemma pbar_set_postfixD:
  assumes "pbar_set_postfix k v w = (r, w')"
  shows "r = Inr ()" and "heap w' = heap w" and "calls w' = calls w @ [PbarPostfix k v]"
  using emitD[of "PbarPostfix k v" w r w'] assms by (simp_all add: pbar_set_postfix_def)

lemma pbar_updateD:
  assumes "pbar_update w = (r, w')"
  shows "r = Inr ()" and "heap w' = heap w" and "calls w' = calls w @ [PbarUpdate]"
  using emitD[of PbarUpdate w r w'] assms by (simp_all add: pbar_update_def)

lemma pbar_createD:
  assumes "pbar_create n w = (r, w')"
  shows "r = Inr ()" and "heap w' = heap w" and "calls w' = calls w @ [PbarCreate n]"
  using emitD[of "PbarCreate n" w r w'] assms by (simp_all add: pbar_create_def)

lemma fit_blocks_calls:
  assumes "fit_blocks py bs X Y w = (Inr a, w')"
  shows "\<exists>evs. calls w' = calls w @ evs \<and>
           filter milestone evs = concat (map (\<lambda>b. [BlockFit b, PbarUpdate]) bs)"
  using assms
proof (induction bs arbitrary: X Y w)
  case Nil
  from retD[of "(X, Y)" w "Inr a" w'] Nil have "w' = w" by simp
  then show ?case by (intro exI[of _ "[]"]) simp
next
  case (Cons b bs)
  from Cons.prems have
    "andthen (\<lambda>w. pbar_set_postfix ''transform'' (class_name py (heap w ! b)) w) (\<lambda>_.
     andthen (invoke (BlockFit b) (block_fit py b X Y)) (\<lambda>fitted.
     andthen (u_transform py fitted X Y) (\<lambda>(X', Y').
     andthen pbar_update (\<lambda>_.
     fit_blocks py bs X' Y')))) w = (Inr a, w')"
    by simp
  then obtain u1 w1 where
    s1: "pbar_set_postfix ''transform'' (class_name py (heap w ! b)) w = (Inr u1, w1)" and
    r1: "andthen (invoke (BlockFit b) (block_fit py b X Y)) (\<lambda>fitted.
     andthen (u_transform py fitted X Y) (\<lambda>(X', Y').
     andthen pbar_update (\<lambda>_.
     fit_blocks py bs X' Y'))) w1 = (Inr a, w')"
    by (cases rule: andthenE) simp_all
  from r1 obtain fitted w2 where
    s2: "invoke (BlockFit b) (block_fit py b X Y) w1 = (Inr fitted, w2)" and
    r2: "andthen (u_transform py fitted X Y) (\<lambda>(X', Y').
     andthen pbar_update (\<lambda>_.
     fit_blocks py bs X' Y')) w2 = (Inr a, w')"
    by (cases rule: andthenE) simp_all
  from r2 obtain p w3 where
    s3: "u_transform py fitted X Y w2 = (Inr p, w3)" and
    r3: "(case p of (X', Y') \<Rightarrow> andthen pbar_update (\<lambda>_. fit_blocks py bs X' Y')) w3 = (Inr a, w')"
    by (cases rule: andthenE) simp_all
  obtain X1 Y1 where p: "p = (X1, Y1)" by (cases p)
  from r3 p have "andthen pbar_update (\<lambda>_. fit_blocks py bs X1 Y1) w3 = (Inr a, w')" by simp
  then obtain u4 w4 where
    s4: "pbar_update w3 = (Inr u4, w4)" and
    r4: "fit_blocks py bs X1 Y1 w4 = (Inr a, w')"
    by (cases rule: andthenE) simp_all
  from u_transform_calls[OF s3] obtain f where
    c3: "calls w3 = calls w2 @ BlockTransform fitted # (if f then [BlockTargetTransform fitted] else [])"
    by (rule exE)
  from Cons.IH[OF r4] obtain evs where
    e: "calls w' = calls w4 @ evs"
       "filter milestone evs = concat (map (\<lambda>b. [BlockFit b, PbarUpdate]) bs)"
    by blast
  let ?evs = "[PbarPostfix ''transform'' (class_name py (heap w ! b)), BlockFit b] @
     (BlockTransform fitted # (if f then [BlockTargetTransform fitted] else [])) @ [PbarUpdate] @ evs"
  have "calls w' = calls w @ ?evs"
    using pbar_set_postfixD(3)[OF s1] invokeD(2)[OF s2] c3 pbar_updateD(3)[OF s4] e(1) by simp
  moreover have "filter milestone ?evs = concat (map (\<lambda>b. [BlockFit b, PbarUpdate]) (b # bs))"
    using e(2) by simp
  ultimately show ?case by (intro exI[of _ ?evs] conjI)
qed

lemma fit_estimator_calls:
  assumes "fit_estimator py self X Y w = (Inr a, w')"
  shows "\<exists>e evs. estimator self = Some e \<and> calls w' = calls w @ evs \<and>
           filter milestone evs = [EstimatorFit e, PbarUpdate]"
proof (cases "estimator self")
  case None
  with assms have
    "andthen (pbar_set_postfix ''transform'' ''NoneType'') (\<lambda>_.
          throw (attribute_error ''NoneType'' ''fit'')) w = (Inr a, w')"
    by (simp add: fit_estimator_def)
  then have False
    by (cases rule: andthenE) (simp_all add: throw_def)
  then show ?thesis ..
next
  case (Some e)
  with assms have
    "andthen (\<lambda>w. pbar_set_postfix ''transform'' (class_name py (heap w ! e)) w) (\<lambda>_.
          andthen (invoke (EstimatorFit e) (estimator_fit py e X Y)) (\<lambda>_.
          pbar_update)) w = (Inr a, w')"
    by (simp add: fit_estimator_def)
  then obtain u1 w1 where
    s1: "pbar_set_postfix ''transform'' (class_name py (heap w ! e)) w = (Inr u1, w1)" and
    r1: "andthen (invoke (EstimatorFit e) (estimator_fit py e X Y)) (\<lambda>_. pbar_update) w1 = (Inr a, w')"
    by (cases rule: andthenE) simp_all
  from r1 obtain u2 w2 where
    s2: "invoke (EstimatorFit e) (estimator_fit py e X Y) w1 = (Inr u2, w2)" and
    r2: "pbar_update w2 = (Inr a, w')"
    by (cases rule: andthenE) simp_all
  let ?evs = "[PbarPostfix ''transform'' (class_name py (heap w ! e)), EstimatorFit e, PbarUpdate]"
  have "calls w' = calls w @ ?evs"
    using pbar_set_postfixD(3)[OF s1] invokeD(2)[OF s2] pbar_updateD(3)[OF r2] by simp
  moreover have "filter milestone ?evs = [EstimatorFit e, PbarUpdate]" by simp
  ultimately show ?thesis using Some by (intro exI[of _ e] exI[of _ ?evs] conjI)
qed

lemma fit_transform_calls:
  assumes "fit_transform py self X Y est w = (Inr a, w')"
  shows "\<exists>evs. calls w' = calls w @ PbarCreate (int (length (blocks self)) + (if est then 1 else 0)) # evs \<and>
           filter milestone evs =
             concat (map (\<lambda>b. [BlockFit b, PbarUpdate]) (blocks self)) @
             (if est then [EstimatorFit (the (estimator self)), PbarUpdate] else []) \<and>
           (est \<longrightarrow> estimator self \<noteq> None)"
proof -
  let ?n = "int (length (blocks self)) + (if est then 1 else 0)"
  from assms obtain X' w1 where
    s1: "copy X w = (Inr X', w1)" and
    r1: "andthen (copy Y) (\<lambda>Y'.
     andthen (pbar_create ?n) (\<lambda>_.
     andthen (fit_blocks py (blocks self) X' Y') (\<lambda>(X', Y').
     if est
     then andthen (fit_estimator py self X' Y') (\<lambda>_. ret (X', Y'))
     else ret (X', Y')))) w1 = (Inr a, w')"
    unfolding fit_transform_def by (cases rule: andthenE) simp_all
  from r1 obtain Y' w2 where
    s2: "copy Y w1 = (Inr Y', w2)" and
    r2: "andthen (pbar_create ?n) (\<lambda>_.
     andthen (fit_blocks py (blocks self) X' Y') (\<lambda>(X', Y').
     if est
     then andthen (fit_estimator py self X' Y') (\<lambda>_. ret (X', Y'))
     else ret (X', Y'))) w2 = (Inr a, w')"
    by (cases rule: andthenE) simp_all
  from r2 obtain u3 w3 where
    s3: "pbar_create ?n w2 = (Inr u3, w3)" and
    r3: "andthen (fit_blocks py (blocks self) X' Y') (\<lambda>(X', Y').
     if est
     then andthen (fit_estimator py self X' Y') (\<lambda>_. ret (X', Y'))
     else ret (X', Y')) w3 = (Inr a, w')"
    by (cases rule: andthenE) simp_all
  from r3 obtain p w4 where
    s4: "fit_blocks py (blocks self) X' Y' w3 = (Inr p, w4)" and
    r4: "(case p of (X', Y') \<Rightarrow> if est
     then andthen (fit_estimator py self X' Y') (\<lambda>_. ret (X', Y'))
     else ret (X', Y')) w4 = (Inr a, w')"
    by (cases rule: andthenE) simp_all
  obtain X1 Y1 where p: "p = (X1, Y1)" by (cases p)
  from fit_blocks_calls[OF s4] obtain evs where
    e: "calls w4 = calls w3 @ evs"
       "filter milestone evs = concat (map (\<lambda>b. [BlockFit b, PbarUpdate]) (blocks self))"
    by blast
  have c3: "calls w3 = calls w @ [PbarCreate ?n]"
    using copyD(3)[OF s1] copyD(3)[OF s2] pbar_createD(3)[OF s3] by simp
  show ?thesis
  proof (cases est)
    case False
    with r4 p have "ret (X1, Y1) w4 = (Inr a, w')" by simp
    from retD[OF this] have "w' = w4" by simp
    with e c3 False show ?thesis by (intro exI[of _ evs]) simp
  next
    case True
    with r4 p have "andthen (fit_estimator py self X1 Y1) (\<lambda>_. ret (X1, Y1)) w4 = (Inr a, w')"
      by simp
    then obtain u5 w5 where
      s5: "fit_estimator py self X1 Y1 w4 = (Inr u5, w5)" and
      r5: "ret (X1, Y1) w5 = (Inr a, w')"
      by (cases rule: andthenE) simp_all
    from retD[OF r5] have w': "w' = w5" by simp
    from fit_estimator_calls[OF s5] obtain e' evs' where
      f: "estimator self = Some e'" "calls w5 = calls w4 @ evs'"
         "filter milestone evs' = [EstimatorFit e', PbarUpdate]"
      by blast
    with e c3 True w' show ?thesis by (intro exI[of _ "evs @ evs'"]) simp
  qed
qed


lemma u_transform_frame:
  assumes lt: "local_transform py" and ltt: "local_target_transform py"
    and run: "u_transform py b X Y w = (r, w')"
    and valid: "b < length (heap w)" "X < length (heap w)" "Y < length (heap w)"
  shows "length (heap w) \<le> length (heap w')"
    and "\<And>a. a < length (heap w) \<Longrightarrow> a \<noteq> b \<Longrightarrow> a \<noteq> X \<Longrightarrow> a \<noteq> Y \<Longrightarrow> heap w' ! a = heap w ! a"
    and "\<And>X1 Y1. r = Inr (X1, Y1) \<Longrightarrow>
           X1 < length (heap w') \<and> Y1 < length (heap w') \<and>
           (X1 = b \<or> X1 = X \<or> length (heap w) \<le> X1) \<and>
           (Y1 = b \<or> Y1 = Y \<or> length (heap w) \<le> Y1)"
proof -
  have lc: "local_call {b, X} (block_transform py b X)"
    using lt by (simp add: local_transform_def)
  have lc2: "local_call {b, Y} (block_target_transform py b Y)"
    using ltt by (simp add: local_target_transform_def)
  have v: "\<forall>a\<in>{b, X}. a < length (heap w)" using valid by simp
  have all: "length (heap w) \<le> length (heap w') \<and>
    (\<forall>a. a < length (heap w) \<longrightarrow> a \<noteq> b \<longrightarrow> a \<noteq> X \<longrightarrow> a \<noteq> Y \<longrightarrow> heap w' ! a = heap w ! a) \<and>
    (\<forall>X1 Y1. r = Inr (X1, Y1) \<longrightarrow>
           X1 < length (heap w') \<and> Y1 < length (heap w') \<and>
           (X1 = b \<or> X1 = X \<or> length (heap w) \<le> X1) \<and>
           (Y1 = b \<or> Y1 = Y \<or> length (heap w) \<le> Y1))"
    using run
  proof (cases rule: u_transform_cases)
    case (raised e)
    note L = local_callD[OF lc raised(1) v]
    from L(1) L(2) raised(2) show ?thesis by simp
  next
    case (plain X1)
    note L = local_callD[OF lc plain(1) v]
    from L(3)[OF refl] have "X1 < length (heap w')" "X1 = b \<or> X1 = X \<or> length (heap w) \<le> X1"
      by auto
    with L(1) L(2) plain(3) valid show ?thesis by simp
  next
    case (target X1 h1 r2)
    note L = local_callD[OF lc target(1) v]
    have v2: "\<forall>a\<in>{b, Y}. a < length h1" using valid L(1) by simp
    note M = local_callD[OF lc2 target(4) v2]
    have len: "length (heap w) \<le> length (heap w')" using L(1) M(1) by simp
    have keep: "heap w' ! a = heap w ! a"
      if "a < length (heap w)" "a \<noteq> b" "a \<noteq> X" "a \<noteq> Y" for a
    proof -
      have "h1 ! a = heap w ! a" using L(2)[of a] that by simp
      moreover have "heap w' ! a = h1 ! a" using M(2)[of a] that L(1) by simp
      ultimately show ?thesis by simp
    qed
    have res: "X1 < length (heap w') \<and> Y1 < length (heap w') \<and>
           (X1 = b \<or> X1 = X \<or> length (heap w) \<le> X1) \<and>
           (Y1 = b \<or> Y1 = Y \<or> length (heap w) \<le> Y1)"
      if "r2 = Inr Y1" for Y1
    proof -
      from L(3)[OF refl] have x: "X1 < length h1" "X1 = b \<or> X1 = X \<or> length (heap w) \<le> X1"
        by auto
      from M(3)[OF that] have y: "Y1 < length (heap w')" "Y1 = b \<or> Y1 = Y \<or> length h1 \<le> Y1"
        by auto
      from x y M(1) L(1) show ?thesis by auto
    qed
    show ?thesis
    proof (cases r2)
      case (Inl e)
      with target(5) len keep show ?thesis by simp
    next
      case (Inr Y1)
      with target(5) len keep res[OF Inr] show ?thesis by simp
    qed
  qed
  from all show "length (heap w) \<le> length (heap w')" by simp
  from all show "\<And>a. a < length (heap w) \<Longrightarrow> a \<noteq> b \<Longrightarrow> a \<noteq> X \<Longrightarrow> a \<noteq> Y \<Longrightarrow> heap w' ! a = heap w ! a"
    by simp
  from all show "\<And>X1 Y1. r = Inr (X1, Y1) \<Longrightarrow>
           X1 < length (heap w') \<and> Y1 < length (heap w') \<and>
           (X1 = b \<or> X1 = X \<or> length (heap w) \<le> X1) \<and>
           (Y1 = b \<or> Y1 = Y \<or> length (heap w) \<le> Y1)"
    by simp
qed


lemma transform_blocks_frame:
  assumes lt: "local_transform py" and ltt: "local_target_transform py"
    and run: "transform_blocks py bs X Y w = (r, w')"
    and valid: "\<forall>b\<in>set bs. b < length (heap w)" "X < length (heap w)" "Y < length (heap w)"
    and a: "a < length (heap w)" "a \<notin> set bs" "a \<noteq> X" "a \<noteq> Y"
  shows "heap w' ! a = heap w ! a \<and> length (heap w) \<le> length (heap w')"
  using run valid a
proof (induction bs arbitrary: X Y w)
  case Nil
  from retD[of "(X, Y)" w r w'] Nil.prems(1) have "w' = w" by simp
  then show ?case by simp
next
  case (Cons b bs)
  from Cons.prems(1) have
    "andthen (u_transform py b X Y) (\<lambda>(X', Y'). transform_blocks py bs X' Y') w = (r, w')"
    by simp
  then show ?case
  proof (cases rule: andthenE)
    case (raised e)
    note F = u_transform_frame[OF lt ltt raised(1)]
    from Cons.prems have "b < length (heap w)" "a \<noteq> b" by auto
    with F(1) F(2)[of a] Cons.prems show ?thesis by simp
  next
    case (returned p w1)
    obtain X1 Y1 where p: "p = (X1, Y1)" by (cases p)
    from Cons.prems have b: "b < length (heap w)" "a \<noteq> b" by auto
    note F = u_transform_frame[OF lt ltt returned(1) b(1) Cons.prems(3,4)]
    from F(3)[of X1 Y1] p have
      xy: "X1 < length (heap w1)" "Y1 < length (heap w1)"
          "X1 = b \<or> X1 = X \<or> length (heap w) \<le> X1"
          "Y1 = b \<or> Y1 = Y \<or> length (heap w) \<le> Y1"
      by simp_all
    have k1: "heap w1 ! a = heap w ! a" using F(2)[of a] Cons.prems b by simp
    from returned(2) p have t: "transform_blocks py bs X1 Y1 w1 = (r, w')" by simp
    have v1: "\<forall>b\<in>set bs. b < length (heap w1)" using Cons.prems(2) F(1) by auto
    have a1: "a < length (heap w1)" "a \<notin> set bs" "a \<noteq> X1" "a \<noteq> Y1"
      using Cons.prems b xy F(1) by auto
    from Cons.IH[OF t v1 xy(1) xy(2) a1] k1 F(1) show ?thesis by simp
  qed
qed

lemma fit_blocks_frame:
  assumes lf: "local_fit py" and lt: "local_transform py" and ltt: "local_target_transform py"
    and run: "fit_blocks py bs X Y w = (r, w')"
    and valid: "\<forall>b\<in>set bs. b < length (heap w)" "X < length (heap w)" "Y < length (heap w)"
    and a: "a < length (heap w)" "a \<notin> set bs" "a \<noteq> X" "a \<noteq> Y"
  shows "heap w' ! a = heap w ! a \<and> length (heap w) \<le> length (heap w') \<and>
         (\<forall>X1 Y1. r = Inr (X1, Y1) \<longrightarrow>
            X1 < length (heap w') \<and> Y1 < length (heap w') \<and> X1 \<noteq> a \<and> Y1 \<noteq> a)"
  using run valid a
proof (induction bs arbitrary: X Y w)
  case Nil
  from retD[of "(X, Y)" w r w'] Nil.prems(1) have "w' = w" "r = Inr (X, Y)" by simp_all
  with Nil.prems show ?case by simp
next
  case (Cons b bs)
  from Cons.prems have b: "b < length (heap w)" "a \<noteq> b" by auto
  have lc: "local_call {b, X, Y} (block_fit py b X Y)"
    using lf by (simp add: local_fit_def)
  from Cons.prems(1) have
    "andthen (\<lambda>w. pbar_set_postfix ''transform'' (class_name py (heap w ! b)) w) (\<lambda>_.
     andthen (invoke (BlockFit b) (block_fit py b X Y)) (\<lambda>fitted.
     andthen (u_transform py fitted X Y) (\<lambda>(X', Y').
     andthen pbar_update (\<lambda>_.
     fit_blocks py bs X' Y')))) w = (r, w')"
    by simp
  then show ?case
  proof (cases rule: andthenE)
    case (raised e)
    from pbar_set_postfixD(1)[OF raised(1)] show ?thesis by simp
  next
    case (returned u1 w1)
    note h1 = pbar_set_postfixD(2)[OF returned(1)]
    from returned(2) show ?thesis
    proof (cases rule: andthenE)
      case (raised e)
      from invokeD(1)[OF raised(1)] h1 have f: "block_fit py b X Y (heap w) = (Inl e, heap w')"
        by simp
      have v: "\<forall>a\<in>{b, X, Y}. a < length (heap w)" using b Cons.prems by simp
      note L = local_callD[OF lc f v]
      from L(1) L(2)[of a] Cons.prems b raised(2) show ?thesis by simp
    next
      case (returned fitted w2)
      from invokeD(1)[OF returned(1)] h1 have f: "block_fit py b X Y (heap w) = (Inr fitted, heap w2)"
        by simp
      have v: "\<forall>a\<in>{b, X, Y}. a < length (heap w)" using b Cons.prems by simp
      note L = local_callD[OF lc f v]
      from L(3)[OF refl] have fv: "fitted < length (heap w2)"
        "fitted = b \<or> fitted = X \<or> fitted = Y \<or> length (heap w) \<le> fitted" by auto
      have k2: "heap w2 ! a = heap w ! a" using L(2)[of a] Cons.prems b by simp
      have xv: "X < length (heap w2)" "Y < length (heap w2)" "a < length (heap w2)"
        using L(1) Cons.prems by simp_all
      have af: "a \<noteq> fitted" using fv(2) Cons.prems b by auto
      from returned(2) show ?thesis
      proof (cases rule: andthenE)
        case (raised e)
        note F = u_transform_frame[OF lt ltt raised(1) fv(1) xv(1) xv(2)]
        from F(1) F(2)[of a] xv af Cons.prems k2 L(1) raised(2) show ?thesis by simp
      next
        case (returned p w3)
        obtain X1 Y1 where p: "p = (X1, Y1)" by (cases p)
        note F = u_transform_frame[OF lt ltt returned(1) fv(1) xv(1) xv(2)]
        from F(3)[of X1 Y1] p have
          xy: "X1 < length (heap w3)" "Y1 < length (heap w3)"
              "X1 = fitted \<or> X1 = X \<or> length (heap w2) \<le> X1"
              "Y1 = fitted \<or> Y1 = Y \<or> length (heap w2) \<le> Y1"
          by simp_all
        have k3: "heap w3 ! a = heap w ! a" using F(2)[of a] xv af Cons.prems k2 by simp
        from returned(2) p have "andthen pbar_update (\<lambda>_. fit_blocks py bs X1 Y1) w3 = (r, w')"
          by simp
        then show ?thesis
        proof (cases rule: andthenE)
          case (raised e)
          from pbar_updateD(1)[OF raised(1)] show ?thesis by simp
        next
          case (returned u4 w4)
          note h4 = pbar_updateD(2)[OF returned(1)]
          have v4: "\<forall>b\<in>set bs. b < length (heap w4)"
            using Cons.prems(2) L(1) F(1) h4 by auto
          have a4: "a < length (heap w4)" "a \<notin> set bs" "a \<noteq> X1" "a \<noteq> Y1"
            using Cons.prems af xy xv F(1) h4 by auto
          have xy4: "X1 < length (heap w4)" "Y1 < length (heap w4)" using xy h4 by simp_all
          from Cons.IH[OF returned(2) v4 xy4 a4] k3 h4 L(1) F(1) show ?thesis by simp
        qed
      qed
    qed
  qed
qed


lemma fit_estimator_frame:
  assumes le: "local_estimator_fit py"
    and run: "fit_estimator py self X Y w = (r, w')"
    and valid: "\<forall>e. estimator self = Some e \<longrightarrow> e < length (heap w) \<and> e \<noteq> a"
      "X < length (heap w)" "Y < length (heap w)"
    and a: "a < length (heap w)" "a \<noteq> X" "a \<noteq> Y"
  shows "heap w' ! a = heap w ! a"
proof (cases "estimator self")
  case None
  with run have
    "andthen (pbar_set_postfix ''transform'' ''NoneType'') (\<lambda>_.
          throw (attribute_error ''NoneType'' ''fit'')) w = (r, w')"
    by (simp add: fit_estimator_def)
  then show ?thesis
  proof (cases rule: andthenE)
    case (raised e)
    from pbar_set_postfixD(2)[OF raised(1)] show ?thesis by simp
  next
    case (returned u1 w1)
    from throwD[OF returned(2)] pbar_set_postfixD(2)[OF returned(1)] show ?thesis by simp
  qed
next
  case (Some e)
  with valid have e: "e < length (heap w)" "e \<noteq> a" by simp_all
  have lc: "local_call {e, X, Y} (estimator_fit py e X Y)"
    using le by (simp add: local_estimator_fit_def)
  from Some run have
    "andthen (\<lambda>w. pbar_set_postfix ''transform'' (class_name py (heap w ! e)) w) (\<lambda>_.
          andthen (invoke (EstimatorFit e) (estimator_fit py e X Y)) (\<lambda>_.
          pbar_update)) w = (r, w')"
    by (simp add: fit_estimator_def)
  then show ?thesis
  proof (cases rule: andthenE)
    case (raised e')
    from pbar_set_postfixD(2)[OF raised(1)] show ?thesis by simp
  next
    case (returned u1 w1)
    note h1 = pbar_set_postfixD(2)[OF returned(1)]
    have v: "\<forall>a\<in>{e, X, Y}. a < length (heap w)" using e valid by simp
    from returned(2) show ?thesis
    proof (cases rule: andthenE)
      case (raised e')
      from invokeD(1)[OF raised(1)] h1 have f: "estimator_fit py e X Y (heap w) = (Inl e', heap w')"
        by simp
      from local_callD(2)[OF lc f v, of a] a e show ?thesis by simp
    next
      case (returned u2 w2)
      from invokeD(1)[OF returned(1)] h1 have f: "estimator_fit py e X Y (heap w) = (Inr u2, heap w2)"
        by simp
      from local_callD(2)[OF lc f v, of a] a e have "heap w2 ! a = heap w ! a" by simp
      with pbar_updateD(2)[OF returned(2)] show ?thesis by simp
    qed
  qed
qed

lemma fit_transform_frame:
  assumes lf: "local_fit py" and lt: "local_transform py" and ltt: "local_target_transform py"
    and le: "est \<longrightarrow> local_estimator_fit py"
    and run: "fit_transform py self X Y est w = (r, w')"
    and valid: "\<forall>b\<in>set (blocks self). b < length (heap w)"
      "\<forall>e. estimator self = Some e \<longrightarrow> e < length (heap w) \<and> e \<noteq> a"
    and a: "a < length (heap w)" "a \<notin> set (blocks self)"
  shows "heap w' ! a = heap w ! a"
  using run unfolding fit_transform_def
proof (cases rule: andthenE)
  case (raised e)
  from copyD(1)[OF raised(1)] show ?thesis by simp
next
  case (returned X' w1)
  note c1 = copyD[OF returned(1)]
  from returned(2) show ?thesis
  proof (cases rule: andthenE)
    case (raised e)
    from copyD(1)[OF raised(1)] show ?thesis by simp
  next
    case (returned Y' w2)
    note c2 = copyD[OF returned(1)]
    from c1 c2 have X': "X' = length (heap w)" and Y': "Y' = Suc (length (heap w))"
      and len2: "length (heap w2) = Suc (Suc (length (heap w)))" by simp_all
    have k2: "heap w2 ! a = heap w ! a" using c1(2) c2(2) a(1) by (simp add: nth_append)
    from returned(2) show ?thesis
    proof (cases rule: andthenE)
      case (raised e)
      from pbar_createD(1)[OF raised(1)] show ?thesis by simp
    next
      case (returned u3 w3)
      note h3 = pbar_createD(2)[OF returned(1)]
      have v3: "\<forall>b\<in>set (blocks self). b < length (heap w3)" "X' < length (heap w3)"
        "Y' < length (heap w3)" using valid(1) h3 len2 X' Y' by auto
      have a3: "a < length (heap w3)" "a \<notin> set (blocks self)" "a \<noteq> X'" "a \<noteq> Y'"
        using a h3 len2 X' Y' by auto
      from returned(2) show ?thesis
      proof (cases rule: andthenE)
        case (raised e)
        from fit_blocks_frame[OF lf lt ltt raised(1) v3 a3] k2 h3 show ?thesis by simp
      next
        case (returned p w4)
        obtain X1 Y1 where p: "p = (X1, Y1)" by (cases p)
        from fit_blocks_frame[OF lf lt ltt returned(1) v3 a3] p have
          k4: "heap w4 ! a = heap w3 ! a" and len4: "length (heap w3) \<le> length (heap w4)" and
          xy: "X1 < length (heap w4)" "Y1 < length (heap w4)" "X1 \<noteq> a" "Y1 \<noteq> a"
          by simp_all
        show ?thesis
        proof (cases est)
          case False
          with returned(2) p have "ret (X1, Y1) w4 = (r, w')" by simp
          from retD[OF this] k4 k2 h3 show ?thesis by simp
        next
          case True
          with returned(2) p have
            "andthen (fit_estimator py self X1 Y1) (\<lambda>_. ret (X1, Y1)) w4 = (r, w')" by simp
          moreover have ve: "\<forall>e. estimator self = Some e \<longrightarrow> e < length (heap w4) \<and> e \<noteq> a"
            using valid(2) len4 h3 len2 by auto
          moreover have a4: "a < length (heap w4)" using a3(1) len4 by simp
          moreover from True le have le': "local_estimator_fit py" by simp
          ultimately show ?thesis
          proof (cases rule: andthenE)
            case (raised e)
            from fit_estimator_frame[OF le' raised(1) ve xy(1,2) a4] xy k4 k2 h3 show ?thesis
              by simp
          next
            case (returned u5 w5)
            from fit_estimator_frame[OF le' returned(1) ve xy(1,2) a4] xy k4 k2 h3
              retD[OF returned(2)] show ?thesis by simp
          qed
        qed
      qed
    qed
  qed
qed

lemma transform_frame:
  assumes lt: "local_transform py" and ltt: "local_target_transform py"
    and run: "transform py self X Y w = (r, w')"
    and valid: "\<forall>b\<in>set (blocks self). b < length (heap w)"
    and a: "a < length (heap w)" "a \<notin> set (blocks self)"
  shows "heap w' ! a = heap w ! a"
  using run unfolding transform_def
proof (cases rule: andthenE)
  case (raised e)
  from copyD(1)[OF raised(1)] show ?thesis by simp
next
  case (returned X' w1)
  note c1 = copyD[OF returned(1)]
  from returned(2) show ?thesis
  proof (cases rule: andthenE)
    case (raised e)
    then have False by (cases Y) (simp_all add: copy_def alloc_def)
    then show ?thesis ..
  next
    case (returned Y' w2)
    from returned(1) obtain v where c2: "Y' = length (heap w1)" "heap w2 = heap w1 @ [v]"
      by (cases Y) (auto simp: copy_def alloc_def)
    from c1 c2 have X': "X' = length (heap w)" and Y': "Y' = Suc (length (heap w))"
      and len2: "length (heap w2) = Suc (Suc (length (heap w)))" by simp_all
    have k2: "heap w2 ! a = heap w ! a" using c1(2) c2(2) a(1) by (simp add: nth_append)
    have v2: "\<forall>b\<in>set (blocks self). b < length (heap w2)" "X' < length (heap w2)"
      "Y' < length (heap w2)" using valid len2 X' Y' by auto
    have a2: "a < length (heap w2)" "a \<notin> set (blocks self)" "a \<noteq> X'" "a \<noteq> Y'"
      using a len2 X' Y' by auto
    from transform_blocks_frame[OF lt ltt returned(2) v2 a2] k2 show ?thesis by simp
  qed
qed

subsection \<open>The concrete world is local\<close>

lemma demo_local_fit: "local_fit demo_py"
  unfolding local_fit_def local_call_def
  by (simp add: demo_py_def demo_fit_def split: obj.split list.split option.split)

lemma demo_local_transform: "local_transform demo_py"
  unfolding local_transform_def local_call_def
  by (simp add: demo_py_def demo_transform_def split: obj.split list.split option.split)

lemma demo_local_target_transform: "local_target_transform demo_py"
  unfolding local_target_transform_def local_call_def
  by (simp add: demo_py_def demo_target_transform_def nth_append split: obj.split list.split option.split)

lemma demo_local_estimator_fit: "local_estimator_fit demo_py"
  unfolding local_estimator_fit_def local_call_def
  by (simp add: demo_py_def demo_estimator_fit_def split: obj.split list.split option.split)


subsection \<open>A chain run on an empty target\<close>




subsection \<open>Stages are fitted in list order\<close>




subsection \<open>Transforming and predicting\<close>







subsection \<open>The caller's tables\<close>

text \<open>
  Claim C7.  \<^verbatim>\<open>fit_transform\<close> and \<^verbatim>\<open>transform\<close> work on copies: given that the stages
  (and, when it is trained, the estimator) are local, that is they change only the objects
  they are handed and do not keep and mutate references beyond them, the caller's \<open>X\<close>
  and \<open>Y\<close> hold after the call what they held before, whether the call returns or
  raises.  \<open>X\<close> and \<open>Y\<close> are tables of the store, not stages or the estimator.  A
  \<^verbatim>\<open>fit_transform\<close> that returns created the progress bar with one unit per stage plus
  one for the estimator, and advanced it exactly once after each stage's \<^verbatim>\<open>fit\<close> and
  once more after the estimator's.
\<close>

theorem originals_unchanged:
  assumes "local_fit py" and "local_transform py" and "local_target_transform py"
    and "est \<longrightarrow> local_estimator_fit py"
    and "X < length (heap w)" and "Y < length (heap w)"
    and "\<forall>b\<in>set (blocks self). b < length (heap w) \<and> b \<noteq> X \<and> b \<noteq> Y"
    and "\<forall>e. estimator self = Some e \<longrightarrow> e < length (heap w) \<and> e \<noteq> X \<and> e \<noteq> Y"
  shows "(fit_transform py self X Y est w = (r, w') \<longrightarrow>
            heap w' ! X = heap w ! X \<and> heap w' ! Y = heap w ! Y \<and>
            (\<forall>a. r = Inr a \<longrightarrow>
               (\<exists>evs. calls w' =
                        calls w @ PbarCreate (int (length (blocks self)) + (if est then 1 else 0)) # evs \<and>
                      filter milestone evs =
                        concat (map (\<lambda>b. [BlockFit b, PbarUpdate]) (blocks self)) @
                        (if est then [EstimatorFit (the (estimator self)), PbarUpdate] else [])))) \<and>
         (transform py self X (Some Y) w = (rt, wt) \<longrightarrow>
            heap wt ! X = heap w ! X \<and> heap wt ! Y = heap w ! Y)"
proof (intro conjI impI allI)
  have v: "\<forall>b\<in>set (blocks self). b < length (heap w)" using assms(7) by simp
  have nx: "X \<notin> set (blocks self)" and ny: "Y \<notin> set (blocks self)" using assms(7) by auto
  have ex: "\<forall>e. estimator self = Some e \<longrightarrow> e < length (heap w) \<and> e \<noteq> X"
    and ey: "\<forall>e. estimator self = Some e \<longrightarrow> e < length (heap w) \<and> e \<noteq> Y"
    using assms(8) by simp_all
  {
    assume run: "fit_transform py self X Y est w = (r, w')"
    show "heap w' ! X = heap w ! X"
      by (rule fit_transform_frame[OF assms(1-4) run v ex assms(5) nx])
    show "heap w' ! Y = heap w ! Y"
      by (rule fit_transform_frame[OF assms(1-4) run v ey assms(6) ny])
    fix a assume "r = Inr a"
    with run have "fit_transform py self X Y est w = (Inr a, w')" by simp
    from fit_transform_calls[OF this]
    show "\<exists>evs. calls w' =
                        calls w @ PbarCreate (int (length (blocks self)) + (if est then 1 else 0)) # evs \<and>
                      filter milestone evs =
                        concat (map (\<lambda>b. [BlockFit b, PbarUpdate]) (blocks self)) @
                        (if est then [EstimatorFit (the (estimator self)), PbarUpdate] else [])"
      by blast
  }
  {
    assume run: "transform py self X (Some Y) w = (rt, wt)"
    show "heap wt ! X = heap w ! X"
      by (rule transform_frame[OF assms(2,3) run v assms(5) nx])
    show "heap wt ! Y = heap w ! Y"
      by (rule transform_frame[OF assms(2,3) run v assms(6) ny])
  }
qed

theorem originals_unchanged_witness:
  "heap fitted_world ! 3 = heap demo_world ! 3 \<and> heap fitted_world ! 4 = heap demo_world ! 4 \<and>
   (\<exists>evs. calls fitted_world = calls demo_world @ PbarCreate 3 # evs \<and>
      filter milestone evs =
        [BlockFit 0, PbarUpdate, BlockFit 1, PbarUpdate, EstimatorFit 2, PbarUpdate]) \<and>
   heap (snd (transform demo_py demo_conveyor 3 (Some 4) demo_world)) ! 3 = heap demo_world ! 3 \<and>
   heap (snd (transform demo_py demo_conveyor 3 (Some 4) demo_world)) ! 4 = heap demo_world ! 4"
proof -
  let ?T = "transform demo_py demo_conveyor 3 (Some 4) demo_world"
  have f: "fit_transform demo_py demo_conveyor 3 4 True demo_world = (Inr (5, 7), fitted_world)"
  proof -
    have "fst (fit_transform demo_py demo_conveyor 3 4 True demo_world) = Inr (5, 7)" by code_simp
    then show ?thesis by (simp add: prod_eq_iff fitted_world_def)
  qed
  have t: "?T = (fst ?T, snd ?T)" by simp
  have h1: "True \<longrightarrow> local_estimator_fit demo_py" using demo_local_estimator_fit by simp
  have h2: "3 < length (heap demo_world)" "4 < length (heap demo_world)"
    by (simp_all add: demo_world_def)
  have h3: "\<forall>b\<in>set (blocks demo_conveyor). b < length (heap demo_world) \<and> b \<noteq> 3 \<and> b \<noteq> 4"
    by (simp add: demo_world_def demo_conveyor_def)
  have h4: "\<forall>e. estimator demo_conveyor = Some e \<longrightarrow> e < length (heap demo_world) \<and> e \<noteq> 3 \<and> e \<noteq> 4"
    by (simp add: demo_world_def demo_conveyor_def)
  note inst = originals_unchanged[OF demo_local_fit demo_local_transform demo_local_target_transform
      h1 h2 h3 h4, where r = "Inr (5, 7)" and w' = fitted_world and rt = "fst ?T" and wt = "snd ?T"]
  note c1 = mp[OF inst[THEN conjunct1] f]
  note c2 = mp[OF inst[THEN conjunct2] t]
  from c1 have "\<exists>evs. calls fitted_world = calls demo_world @ PbarCreate 3 # evs \<and>
      filter milestone evs =
        [BlockFit 0, PbarUpdate, BlockFit 1, PbarUpdate, EstimatorFit 2, PbarUpdate]"
    by (simp add: demo_conveyor_def)
  with c1 c2 show ?thesis by blast
qed

subsection \<open>Re-applying the fitted stages\<close>

lemma pure_callD:
  assumes "pure_call T f" "f b X h = (r, h')" "b < length h" "X < length h"
  shows "length h \<le> length h'"
    and "\<And>a. a < length h \<Longrightarrow> a \<noteq> X \<Longrightarrow> h' ! a = h ! a"
    and "\<And>e. r = Inl e \<Longrightarrow> T (h ! b) (h ! X) = None"
    and "\<And>x. r = Inr x \<Longrightarrow> x < length h' \<and> (x = X \<or> length h \<le> x) \<and> T (h ! b) (h ! X) = Some (h' ! x)"
proof -
  note * = assms(1)[unfolded pure_call_def, rule_format, of b h X, OF assms(3,4), unfolded assms(2), simplified]
  from * show "length h \<le> length h'" by simp
  from * show "\<And>a. a < length h \<Longrightarrow> a \<noteq> X \<Longrightarrow> h' ! a = h ! a" by simp
  from * show "\<And>e. r = Inl e \<Longrightarrow> T (h ! b) (h ! X) = None" by simp
  from * show "\<And>x. r = Inr x \<Longrightarrow> x < length h' \<and> (x = X \<or> length h \<le> x) \<and> T (h ! b) (h ! X) = Some (h' ! x)"
    by simp
qed

lemma local_call_mono:
  fixes f :: "(addr, 'a) extern"
  assumes "local_call A f" "A \<subseteq> B"
  shows "local_call B f"
  unfolding local_call_def
proof (intro allI impI)
  fix h :: "'a list" assume v: "\<forall>a\<in>B. a < length h"
  with assms(2) have va: "\<forall>a\<in>A. a < length h" by blast
  obtain r h' where f: "f h = (r, h')" by (cases "f h")
  note L = local_callD[OF assms(1) f va]
  have 1: "length h \<le> length h'" by (rule L(1))
  have 2: "\<forall>a<length h. a \<notin> B \<longrightarrow> h' ! a = h ! a"
  proof (intro allI impI)
    fix a assume "a < length h" "a \<notin> B"
    with assms(2) have "a < length h" "a \<notin> A" by blast+
    then show "h' ! a = h ! a" by (rule L(2))
  qed
  have 3: "case r of Inl e \<Rightarrow> True | Inr x \<Rightarrow> x < length h' \<and> (x \<in> B \<or> length h \<le> x)"
  proof (cases r)
    case (Inl e)
    then show ?thesis by simp
  next
    case (Inr x)
    from L(3)[OF Inr] assms(2) have "x < length h' \<and> (x \<in> B \<or> length h \<le> x)" by blast
    with Inr show ?thesis by simp
  qed
  from 1 2 3 show "case f h of (r, h') \<Rightarrow>
           length h \<le> length h' \<and>
           (\<forall>a<length h. a \<notin> B \<longrightarrow> h' ! a = h ! a) \<and>
           (case r of Inl e \<Rightarrow> True | Inr x \<Rightarrow> x < length h' \<and> (x \<in> B \<or> length h \<le> x))"
    unfolding f by simp
qed

lemma fit_in_placeD:
  assumes "fit_in_place py"
  shows "local_call {b} (block_fit py b X Y)"
    and "block_fit py b X Y h = (Inr r, h') \<Longrightarrow> r = b"
proof -
  note * = assms[unfolded fit_in_place_def, rule_format, of b X Y]
  from * show "local_call {b} (block_fit py b X Y)" by (rule conjunct1)
  from * have "\<forall>h r h'. block_fit py b X Y h = (Inr r, h') \<longrightarrow> r = b" by (rule conjunct2)
  then show "block_fit py b X Y h = (Inr r, h') \<Longrightarrow> r = b" by (rule allE) blast
qed

lemma fit_in_place_local:
  assumes "fit_in_place py"
  shows "local_fit py"
  unfolding local_fit_def
proof (intro allI)
  fix b X Y
  have "local_call {b} (block_fit py b X Y)" by (rule fit_in_placeD(1)[OF assms])
  then show "local_call {b, X, Y} (block_fit py b X Y)" by (rule local_call_mono) simp
qed

lemma pure_call_local:
  fixes f :: "addr \<Rightarrow> addr \<Rightarrow> (addr, 'a) extern"
  assumes "pure_call T f"
  shows "local_call {b, X} (f b X)"
  unfolding local_call_def
proof (intro allI impI)
  fix h :: "'a list" assume "\<forall>a\<in>{b, X}. a < length h"
  then have v: "b < length h" "X < length h" by simp_all
  obtain r h' where f: "f b X h = (r, h')" by (cases "f b X h")
  note P = pure_callD[OF assms f v]
  have 3: "case r of Inl e \<Rightarrow> True | Inr x \<Rightarrow> x < length h' \<and> (x \<in> {b, X} \<or> length h \<le> x)"
  proof (cases r)
    case (Inl e)
    then show ?thesis by simp
  next
    case (Inr x)
    from P(4)[OF Inr] have "x < length h' \<and> (x \<in> {b, X} \<or> length h \<le> x)" by blast
    with Inr show ?thesis by simp
  qed
  from P(1) P(2) 3 show "case f b X h of (r, h') \<Rightarrow>
           length h \<le> length h' \<and>
           (\<forall>a<length h. a \<notin> {b, X} \<longrightarrow> h' ! a = h ! a) \<and>
           (case r of Inl e \<Rightarrow> True | Inr x \<Rightarrow> x < length h' \<and> (x \<in> {b, X} \<or> length h \<le> x))"
    unfolding f by simp
qed

lemma pure_local_transform: "pure_call T (block_transform py) \<Longrightarrow> local_transform py"
  unfolding local_transform_def by (intro allI pure_call_local)

lemma pure_local_target_transform:
  "pure_call TT (block_target_transform py) \<Longrightarrow> local_target_transform py"
  unfolding local_target_transform_def by (intro allI pure_call_local)


lemma u_transform_pure:
  assumes pt: "pure_call T (block_transform py)" and ptt: "pure_call TT (block_target_transform py)"
    and run: "u_transform py b X Y w = (r, w')"
    and valid: "b < length (heap w)" "X < length (heap w)" "Y < length (heap w)"
    and sep: "b \<noteq> X" "b \<noteq> Y" "X \<noteq> Y"
  shows "length (heap w) \<le> length (heap w')"
    and "\<And>a. a < length (heap w) \<Longrightarrow> a \<noteq> X \<Longrightarrow> a \<noteq> Y \<Longrightarrow> heap w' ! a = heap w ! a"
    and "\<And>e. r = Inl e \<Longrightarrow> chain_step py T TT (heap w ! b) (heap w ! X, heap w ! Y) = None"
    and "\<And>X1 Y1. r = Inr (X1, Y1) \<Longrightarrow>
           chain_step py T TT (heap w ! b) (heap w ! X, heap w ! Y) = Some (heap w' ! X1, heap w' ! Y1) \<and>
           X1 < length (heap w') \<and> Y1 < length (heap w') \<and> X1 \<noteq> Y1 \<and>
           (X1 = X \<or> length (heap w) \<le> X1) \<and> (Y1 = Y \<or> length (heap w) \<le> Y1)"
proof -
  let ?s = "heap w ! b" and ?x = "heap w ! X" and ?y = "heap w ! Y"
  have all: "length (heap w) \<le> length (heap w') \<and>
    (\<forall>a. a < length (heap w) \<longrightarrow> a \<noteq> X \<longrightarrow> a \<noteq> Y \<longrightarrow> heap w' ! a = heap w ! a) \<and>
    (\<forall>e. r = Inl e \<longrightarrow> chain_step py T TT ?s (?x, ?y) = None) \<and>
    (\<forall>X1 Y1. r = Inr (X1, Y1) \<longrightarrow>
           chain_step py T TT ?s (?x, ?y) = Some (heap w' ! X1, heap w' ! Y1) \<and>
           X1 < length (heap w') \<and> Y1 < length (heap w') \<and> X1 \<noteq> Y1 \<and>
           (X1 = X \<or> length (heap w) \<le> X1) \<and> (Y1 = Y \<or> length (heap w) \<le> Y1))"
    using run
  proof (cases rule: u_transform_cases)
    case (raised e)
    note P = pure_callD[OF pt raised(1) valid(1,2)]
    from P(3)[OF refl] have "chain_step py T TT ?s (?x, ?y) = None"
      by (simp add: chain_step_def)
    with P(1) P(2) raised(2) show ?thesis by simp
  next
    case (plain X1)
    note P = pure_callD[OF pt plain(1) valid(1,2)]
    from P(4)[OF refl] have x1: "X1 < length (heap w')" "X1 = X \<or> length (heap w) \<le> X1"
      "T ?s ?x = Some (heap w' ! X1)" by simp_all
    have ky: "heap w' ! Y = ?y" using P(2)[of Y] valid sep by simp
    have kb: "heap w' ! b = ?s" using P(2)[of b] valid sep by simp
    from plain(2) ky kb have c: "\<not> (\<not> pd_empty py ?y \<and> has_target_transform py ?s)" by simp
    have "chain_step py T TT ?s (?x, ?y) = Some (heap w' ! X1, ?y)"
      using x1(3) c by (auto simp: chain_step_def)
    then have "chain_step py T TT ?s (?x, ?y) = Some (heap w' ! X1, heap w' ! Y)"
      using ky by simp
    moreover have "Y < length (heap w')" using valid P(1) by simp
    moreover have "X1 \<noteq> Y" using x1(2) valid sep by auto
    ultimately show ?thesis using P(1) P(2) plain(3) x1 by simp
  next
    case (target X1 h1 r2)
    note P = pure_callD[OF pt target(1) valid(1,2)]
    from P(4)[OF refl] have x1: "X1 < length h1" "X1 = X \<or> length (heap w) \<le> X1"
      "T ?s ?x = Some (h1 ! X1)" by simp_all
    have ky: "h1 ! Y = ?y" using P(2)[of Y] valid sep by simp
    have kb: "h1 ! b = ?s" using P(2)[of b] valid sep by simp
    have v1: "b < length h1" "Y < length h1" using valid P(1) by simp_all
    note Q = pure_callD[OF ptt target(4) v1]
    have c: "\<not> pd_empty py ?y \<and> has_target_transform py ?s" using target(2,3) ky kb by simp
    have xy: "X1 \<noteq> Y" using x1(2) valid sep by auto
    have kx: "heap w' ! X1 = h1 ! X1" using Q(2)[of X1] x1(1) xy by simp
    have len: "length (heap w) \<le> length (heap w')" using P(1) Q(1) by simp
    have keep: "\<forall>a. a < length (heap w) \<longrightarrow> a \<noteq> X \<longrightarrow> a \<noteq> Y \<longrightarrow> heap w' ! a = heap w ! a"
    proof (intro allI impI)
      fix a assume a: "a < length (heap w)" "a \<noteq> X" "a \<noteq> Y"
      then have "h1 ! a = heap w ! a" using P(2)[of a] by simp
      moreover have "heap w' ! a = h1 ! a" using Q(2)[of a] a P(1) by simp
      ultimately show "heap w' ! a = heap w ! a" by simp
    qed
    show ?thesis
    proof (cases r2)
      case (Inl e)
      from Q(3)[OF Inl] ky kb have "TT ?s ?y = None" by simp
      with x1(3) c have "chain_step py T TT ?s (?x, ?y) = None" by (simp add: chain_step_def)
      with Inl target(5) len keep show ?thesis by simp
    next
      case (Inr Y1)
      from Q(4)[OF Inr] ky kb have y1: "Y1 < length (heap w')" "Y1 = Y \<or> length h1 \<le> Y1"
        "TT ?s ?y = Some (heap w' ! Y1)" by simp_all
      have "chain_step py T TT ?s (?x, ?y) = Some (heap w' ! X1, heap w' ! Y1)"
        using x1(3) c y1(3) kx by (simp add: chain_step_def)
      moreover have "X1 < length (heap w')" using x1(1) Q(1) by simp
      moreover have "X1 \<noteq> Y1" using y1(2) xy x1(1) by auto
      moreover have "Y1 = Y \<or> length (heap w) \<le> Y1" using y1(2) P(1) by auto
      ultimately show ?thesis using Inr target(5) len keep y1(1) x1(2) by simp
    qed
  qed
  from all show "length (heap w) \<le> length (heap w')" by simp
  from all show "\<And>a. a < length (heap w) \<Longrightarrow> a \<noteq> X \<Longrightarrow> a \<noteq> Y \<Longrightarrow> heap w' ! a = heap w ! a"
    by simp
  from all show "\<And>e. r = Inl e \<Longrightarrow> chain_step py T TT ?s (?x, ?y) = None" by simp
  from all show "\<And>X1 Y1. r = Inr (X1, Y1) \<Longrightarrow>
           chain_step py T TT ?s (?x, ?y) = Some (heap w' ! X1, heap w' ! Y1) \<and>
           X1 < length (heap w') \<and> Y1 < length (heap w') \<and> X1 \<noteq> Y1 \<and>
           (X1 = X \<or> length (heap w) \<le> X1) \<and> (Y1 = Y \<or> length (heap w) \<le> Y1)"
    by simp
qed


lemma transform_blocks_chain:
  assumes pt: "pure_call T (block_transform py)" and ptt: "pure_call TT (block_target_transform py)"
    and run: "transform_blocks py bs X Y w = (r, w')"
    and valid: "\<forall>b\<in>set bs. b < length (heap w)" "X < length (heap w)" "Y < length (heap w)"
    and sep: "X \<notin> set bs" "Y \<notin> set bs" "X \<noteq> Y"
  shows "(\<forall>e. r = Inl e \<longrightarrow>
            chain py T TT (map ((!) (heap w)) bs) (heap w ! X, heap w ! Y) = None) \<and>
         (\<forall>X1 Y1. r = Inr (X1, Y1) \<longrightarrow>
            chain py T TT (map ((!) (heap w)) bs) (heap w ! X, heap w ! Y) =
              Some (heap w' ! X1, heap w' ! Y1))"
  using run valid sep
proof (induction bs arbitrary: X Y w)
  case Nil
  from retD[of "(X, Y)" w r w'] Nil.prems(1) have "w' = w" "r = Inr (X, Y)" by simp_all
  then show ?case by simp
next
  case (Cons b bs)
  from Cons.prems have b: "b < length (heap w)" "b \<noteq> X" "b \<noteq> Y" by auto
  from Cons.prems(1) have
    "andthen (u_transform py b X Y) (\<lambda>(X', Y'). transform_blocks py bs X' Y') w = (r, w')"
    by simp
  then show ?case
  proof (cases rule: andthenE)
    case (raised e)
    note U = u_transform_pure[OF pt ptt raised(1) b(1) Cons.prems(3,4) b(2,3) Cons.prems(7)]
    from U(3)[OF refl] raised(2) show ?thesis by simp
  next
    case (returned p w1)
    obtain X1 Y1 where p: "p = (X1, Y1)" by (cases p)
    note U = u_transform_pure[OF pt ptt returned(1) b(1) Cons.prems(3,4) b(2,3) Cons.prems(7)]
    from U(4)[of X1 Y1] p have
      st: "chain_step py T TT (heap w ! b) (heap w ! X, heap w ! Y) = Some (heap w1 ! X1, heap w1 ! Y1)"
      and xy: "X1 < length (heap w1)" "Y1 < length (heap w1)" "X1 \<noteq> Y1"
        "X1 = X \<or> length (heap w) \<le> X1" "Y1 = Y \<or> length (heap w) \<le> Y1"
      by simp_all
    have same: "map ((!) (heap w1)) bs = map ((!) (heap w)) bs"
    proof (rule map_cong[OF refl])
      fix b' assume "b' \<in> set bs"
      with Cons.prems have "b' < length (heap w)" "b' \<noteq> X" "b' \<noteq> Y" by auto
      then show "heap w1 ! b' = heap w ! b'" by (rule U(2))
    qed
    from returned(2) p have t: "transform_blocks py bs X1 Y1 w1 = (r, w')" by simp
    have v1: "\<forall>b\<in>set bs. b < length (heap w1)" using Cons.prems(2) U(1) by auto
    have s1: "X1 \<notin> set bs" "Y1 \<notin> set bs" using xy(4,5) Cons.prems by auto
    from Cons.IH[OF t v1 xy(1,2) s1 xy(3)] same st show ?thesis by simp
  qed
qed

lemma fit_blocks_chain:
  assumes fip: "fit_in_place py"
    and pt: "pure_call T (block_transform py)" and ptt: "pure_call TT (block_target_transform py)"
    and run: "fit_blocks py bs X Y w = (Inr (Xn, Yn), w')"
    and valid: "\<forall>b\<in>set bs. b < length (heap w)" "X < length (heap w)" "Y < length (heap w)"
    and sep: "distinct bs" "X \<notin> set bs" "Y \<notin> set bs" "X \<noteq> Y"
  shows "chain py T TT (map ((!) (heap w')) bs) (heap w ! X, heap w ! Y) =
           Some (heap w' ! Xn, heap w' ! Yn)"
  using run valid sep
proof (induction bs arbitrary: X Y w)
  case Nil
  from retD[of "(X, Y)" w "Inr (Xn, Yn)" w'] Nil.prems(1) have "w' = w" "Xn = X" "Yn = Y"
    by simp_all
  then show ?case by simp
next
  case (Cons b bs)
  note lf = fit_in_place_local[OF fip]
  note lt = pure_local_transform[OF pt]
  note ltt = pure_local_target_transform[OF ptt]
  from Cons.prems have b: "b < length (heap w)" "b \<noteq> X" "b \<noteq> Y" "b \<notin> set bs" by auto
  from Cons.prems(1) have
    "andthen (\<lambda>w. pbar_set_postfix ''transform'' (class_name py (heap w ! b)) w) (\<lambda>_.
     andthen (invoke (BlockFit b) (block_fit py b X Y)) (\<lambda>fitted.
     andthen (u_transform py fitted X Y) (\<lambda>(X', Y').
     andthen pbar_update (\<lambda>_.
     fit_blocks py bs X' Y')))) w = (Inr (Xn, Yn), w')"
    by simp
  then obtain u1 w1 where
    s1: "pbar_set_postfix ''transform'' (class_name py (heap w ! b)) w = (Inr u1, w1)" and
    r1: "andthen (invoke (BlockFit b) (block_fit py b X Y)) (\<lambda>fitted.
     andthen (u_transform py fitted X Y) (\<lambda>(X', Y').
     andthen pbar_update (\<lambda>_.
     fit_blocks py bs X' Y'))) w1 = (Inr (Xn, Yn), w')"
    by (cases rule: andthenE) simp_all
  from r1 obtain fitted w2 where
    s2: "invoke (BlockFit b) (block_fit py b X Y) w1 = (Inr fitted, w2)" and
    r2: "andthen (u_transform py fitted X Y) (\<lambda>(X', Y').
     andthen pbar_update (\<lambda>_.
     fit_blocks py bs X' Y')) w2 = (Inr (Xn, Yn), w')"
    by (cases rule: andthenE) simp_all
  from invokeD(1)[OF s2] pbar_set_postfixD(2)[OF s1] have
    f: "block_fit py b X Y (heap w) = (Inr fitted, heap w2)" by simp
  from fit_in_placeD(2)[OF fip f] have fb: "fitted = b" .
  have vb: "\<forall>a\<in>{b}. a < length (heap w)" using b by simp
  note L = local_callD[OF fit_in_placeD(1)[OF fip] f vb]
  have k2: "heap w2 ! X = heap w ! X" "heap w2 ! Y = heap w ! Y"
    using L(2)[of X] L(2)[of Y] Cons.prems b by simp_all
  have v2: "b < length (heap w2)" "X < length (heap w2)" "Y < length (heap w2)"
    using L(1) b Cons.prems by simp_all
  from r2 fb obtain p w3 where
    s3: "u_transform py b X Y w2 = (Inr p, w3)" and
    r3: "(case p of (X', Y') \<Rightarrow> andthen pbar_update (\<lambda>_. fit_blocks py bs X' Y')) w3 = (Inr (Xn, Yn), w')"
    by (cases rule: andthenE) simp_all
  obtain X1 Y1 where p: "p = (X1, Y1)" by (cases p)
  note U = u_transform_pure[OF pt ptt s3 v2 b(2,3) Cons.prems(8)]
  from U(4)[of X1 Y1] p k2 have
    st: "chain_step py T TT (heap w2 ! b) (heap w ! X, heap w ! Y) = Some (heap w3 ! X1, heap w3 ! Y1)"
    and xy: "X1 < length (heap w3)" "Y1 < length (heap w3)" "X1 \<noteq> Y1"
      "X1 = X \<or> length (heap w2) \<le> X1" "Y1 = Y \<or> length (heap w2) \<le> Y1"
    by simp_all
  have k3: "heap w3 ! b = heap w2 ! b" using U(2)[of b] v2 b by simp
  from r3 p have "andthen pbar_update (\<lambda>_. fit_blocks py bs X1 Y1) w3 = (Inr (Xn, Yn), w')" by simp
  then obtain u4 w4 where
    s4: "pbar_update w3 = (Inr u4, w4)" and
    r4: "fit_blocks py bs X1 Y1 w4 = (Inr (Xn, Yn), w')"
    by (cases rule: andthenE) simp_all
  note h4 = pbar_updateD(2)[OF s4]
  have v4: "\<forall>b\<in>set bs. b < length (heap w4)" "X1 < length (heap w4)" "Y1 < length (heap w4)"
    "b < length (heap w4)"
    using Cons.prems(2) L(1) U(1) h4 xy by auto
  have s4': "X1 \<notin> set bs" "Y1 \<notin> set bs" "b \<noteq> X1" "b \<noteq> Y1"
    using xy(4,5) Cons.prems L(1) b by auto
  have d: "distinct bs" using Cons.prems by simp
  from Cons.IH[OF r4 v4(1,2,3) d s4'(1,2) xy(3)] h4 have
    ih: "chain py T TT (map ((!) (heap w')) bs) (heap w3 ! X1, heap w3 ! Y1) =
           Some (heap w' ! Xn, heap w' ! Yn)" by simp
  from fit_blocks_frame[OF lf lt ltt r4 v4(1,2,3) v4(4) b(4) s4'(3,4)] h4 k3
  have kb: "heap w' ! b = heap w2 ! b" by simp
  from st ih kb show ?case by simp
qed


lemma fit_estimator_keeps:
  assumes le: "\<forall>e X Y. local_call {e} (estimator_fit py e X Y)"
    and run: "fit_estimator py self X Y w = (r, w')"
    and valid: "\<forall>e. estimator self = Some e \<longrightarrow> e < length (heap w) \<and> e \<noteq> a"
    and a: "a < length (heap w)"
  shows "heap w' ! a = heap w ! a" and "length (heap w) \<le> length (heap w')"
proof -
  have "heap w' ! a = heap w ! a \<and> length (heap w) \<le> length (heap w')"
  proof (cases "estimator self")
    case None
    with run have
      "andthen (pbar_set_postfix ''transform'' ''NoneType'') (\<lambda>_.
            throw (attribute_error ''NoneType'' ''fit'')) w = (r, w')"
      by (simp add: fit_estimator_def)
    then show ?thesis
    proof (cases rule: andthenE)
      case (raised e)
      from pbar_set_postfixD(2)[OF raised(1)] show ?thesis by simp
    next
      case (returned u1 w1)
      from throwD[OF returned(2)] pbar_set_postfixD(2)[OF returned(1)] show ?thesis by simp
    qed
  next
    case (Some e)
    with valid have e: "e < length (heap w)" "e \<noteq> a" by simp_all
    have lc: "local_call {e} (estimator_fit py e X Y)" using le by simp
    have v: "\<forall>a\<in>{e}. a < length (heap w)" using e by simp
    from Some run have
      "andthen (\<lambda>w. pbar_set_postfix ''transform'' (class_name py (heap w ! e)) w) (\<lambda>_.
            andthen (invoke (EstimatorFit e) (estimator_fit py e X Y)) (\<lambda>_.
            pbar_update)) w = (r, w')"
      by (simp add: fit_estimator_def)
    then show ?thesis
    proof (cases rule: andthenE)
      case (raised e')
      from pbar_set_postfixD(2)[OF raised(1)] show ?thesis by simp
    next
      case (returned u1 w1)
      note h1 = pbar_set_postfixD(2)[OF returned(1)]
      from returned(2) show ?thesis
      proof (cases rule: andthenE)
        case (raised e')
        from invokeD(1)[OF raised(1)] h1 have f: "estimator_fit py e X Y (heap w) = (Inl e', heap w')"
          by simp
        from local_callD(1)[OF lc f v] local_callD(2)[OF lc f v, of a] a e show ?thesis by simp
      next
        case (returned u2 w2)
        from invokeD(1)[OF returned(1)] h1 have f: "estimator_fit py e X Y (heap w) = (Inr u2, heap w2)"
          by simp
        from local_callD(1)[OF lc f v] local_callD(2)[OF lc f v, of a] a e
        have "heap w2 ! a = heap w ! a" "length (heap w) \<le> length (heap w2)" by simp_all
        with pbar_updateD(2)[OF returned(2)] show ?thesis by simp
      qed
    qed
  qed
  then show "heap w' ! a = heap w ! a" and "length (heap w) \<le> length (heap w')" by simp_all
qed

lemma fit_transform_run:
  assumes "fit_transform py self X Y est w = (Inr (X1, Y1), w1)"
  obtains wc wd where
    "heap wc = heap w @ [heap w ! X, (heap w @ [heap w ! X]) ! Y]"
    "fit_blocks py (blocks self) (length (heap w)) (Suc (length (heap w))) wc = (Inr (X1, Y1), wd)"
    "est \<longrightarrow> (\<exists>u. fit_estimator py self X1 Y1 wd = (Inr u, w1))"
    "\<not> est \<longrightarrow> w1 = wd"
proof -
  let ?n = "int (length (blocks self)) + (if est then 1 else 0)"
  from assms obtain X' w1' where
    s1: "copy X w = (Inr X', w1')" and
    r1: "andthen (copy Y) (\<lambda>Y'.
     andthen (pbar_create ?n) (\<lambda>_.
     andthen (fit_blocks py (blocks self) X' Y') (\<lambda>(X', Y').
     if est
     then andthen (fit_estimator py self X' Y') (\<lambda>_. ret (X', Y'))
     else ret (X', Y')))) w1' = (Inr (X1, Y1), w1)"
    unfolding fit_transform_def by (cases rule: andthenE) simp_all
  from r1 obtain Y' w2 where
    s2: "copy Y w1' = (Inr Y', w2)" and
    r2: "andthen (pbar_create ?n) (\<lambda>_.
     andthen (fit_blocks py (blocks self) X' Y') (\<lambda>(X', Y').
     if est
     then andthen (fit_estimator py self X' Y') (\<lambda>_. ret (X', Y'))
     else ret (X', Y'))) w2 = (Inr (X1, Y1), w1)"
    by (cases rule: andthenE) simp_all
  from r2 obtain u3 w3 where
    s3: "pbar_create ?n w2 = (Inr u3, w3)" and
    r3: "andthen (fit_blocks py (blocks self) X' Y') (\<lambda>(X', Y').
     if est
     then andthen (fit_estimator py self X' Y') (\<lambda>_. ret (X', Y'))
     else ret (X', Y')) w3 = (Inr (X1, Y1), w1)"
    by (cases rule: andthenE) simp_all
  from r3 obtain p w4 where
    s4: "fit_blocks py (blocks self) X' Y' w3 = (Inr p, w4)" and
    r4: "(case p of (X', Y') \<Rightarrow> if est
     then andthen (fit_estimator py self X' Y') (\<lambda>_. ret (X', Y'))
     else ret (X', Y')) w4 = (Inr (X1, Y1), w1)"
    by (cases rule: andthenE) simp_all
  obtain Xn Yn where p: "p = (Xn, Yn)" by (cases p)
  note c1 = copyD[OF s1] and c2 = copyD[OF s2] and c3 = pbar_createD[OF s3]
  from c1 c2 c3 have h3: "heap w3 = heap w @ [heap w ! X, (heap w @ [heap w ! X]) ! Y]"
    and X': "X' = length (heap w)" and Y': "Y' = Suc (length (heap w))"
    by simp_all
  show ?thesis
  proof (cases est)
    case False
    with r4 p have "ret (Xn, Yn) w4 = (Inr (X1, Y1), w1)" by simp
    from retD[OF this] have e: "Xn = X1" "Yn = Y1" "w1 = w4" by simp_all
    from s4 p e X' Y' have
      "fit_blocks py (blocks self) (length (heap w)) (Suc (length (heap w))) w3 = (Inr (X1, Y1), w4)"
      by simp
    with h3 e False show ?thesis by (intro that[of w3 w4]) simp_all
  next
    case True
    with r4 p have "andthen (fit_estimator py self Xn Yn) (\<lambda>_. ret (Xn, Yn)) w4 = (Inr (X1, Y1), w1)"
      by simp
    then obtain u5 w5 where
      s5: "fit_estimator py self Xn Yn w4 = (Inr u5, w5)" and
      r5: "ret (Xn, Yn) w5 = (Inr (X1, Y1), w1)"
      by (cases rule: andthenE) simp_all
    from retD[OF r5] have e: "Xn = X1" "Yn = Y1" "w1 = w5" by simp_all
    from s4 p e X' Y' have
      "fit_blocks py (blocks self) (length (heap w)) (Suc (length (heap w))) w3 = (Inr (X1, Y1), w4)"
      by simp
    moreover from s5 e have "\<exists>u. fit_estimator py self X1 Y1 w4 = (Inr u, w1)" by auto
    ultimately show ?thesis using h3 True by (intro that[of w3 w4]) simp_all
  qed
qed

lemma transform_run:
  assumes "transform py self X (Some Y) w = (r, w')"
  obtains wc where
    "heap wc = heap w @ [heap w ! X, (heap w @ [heap w ! X]) ! Y]"
    "transform_blocks py (blocks self) (length (heap w)) (Suc (length (heap w))) wc = (r, w')"
  using assms unfolding transform_def
proof (cases rule: andthenE)
  case (raised e)
  from copyD(1)[OF raised(1)] show ?thesis by simp
next
  case (returned X' w1)
  note c1 = copyD[OF returned(1)]
  from returned(2) show ?thesis
  proof (cases rule: andthenE)
    case (raised e)
    then have "copy Y w1 = (Inl e, w')" by simp
    from copyD(1)[OF this] show ?thesis by simp
  next
    case (returned Y' w2)
    then have "copy Y w1 = (Inr Y', w2)" by simp
    note c2 = copyD[OF this]
    from c1 c2 returned(2) show ?thesis by (intro that[of w2]) simp_all
  qed
qed


lemma demo_fit_in_place: "fit_in_place demo_py"
  unfolding fit_in_place_def local_call_def
  by (simp add: demo_py_def demo_fit_def split: obj.split list.split option.split)

lemma demo_pure_transform: "pure_call demo_T (block_transform demo_py)"
  unfolding pure_call_def
  by (simp add: demo_py_def demo_transform_def demo_T_def split: obj.split list.split option.split)

lemma demo_pure_target_transform: "pure_call demo_TT (block_target_transform demo_py)"
  unfolding pure_call_def
  by (simp add: demo_py_def demo_target_transform_def demo_TT_def nth_append
      split: obj.split list.split option.split)

lemma demo_estimator_in_place: "\<forall>e Xa Ya. local_call {e} (estimator_fit demo_py e Xa Ya)"
  unfolding local_call_def
  by (simp add: demo_py_def demo_estimator_fit_def split: obj.split list.split option.split)

text \<open>
  Claim C8, as amended.  Let the stages of the list be distinct objects whose \<^verbatim>\<open>fit\<close>
  works in place (it returns the stage itself and changes nothing else), let
  \<^verbatim>\<open>transform\<close> and \<^verbatim>\<open>target_transform\<close> be pure functions of the fitted state and their
  argument, and let the estimator's \<^verbatim>\<open>fit\<close>, when it is trained, change nothing but the
  estimator.  Then after a \<^verbatim>\<open>fit_transform\<close> of (X, Y) that returned, \<^verbatim>\<open>transform\<close> of the
  same (X, Y) returns too, and its two tables hold exactly what the two tables of
  \<^verbatim>\<open>fit_transform\<close> hold.
\<close>

theorem transform_repeats_fit_transform:
  assumes fip: "fit_in_place py"
    and pt: "pure_call T (block_transform py)" and ptt: "pure_call TT (block_target_transform py)"
    and le: "est \<longrightarrow> (\<forall>e Xa Ya. local_call {e} (estimator_fit py e Xa Ya))"
    and d: "distinct (blocks self)"
    and X: "X < length (heap w)" and Y: "Y < length (heap w)"
    and bs: "\<forall>b\<in>set (blocks self). b < length (heap w) \<and> b \<noteq> X \<and> b \<noteq> Y"
    and es: "\<forall>e. estimator self = Some e \<longrightarrow>
              e < length (heap w) \<and> e \<noteq> X \<and> e \<noteq> Y \<and> e \<notin> set (blocks self)"
    and run: "fit_transform py self X Y est w = (Inr (X1, Y1), w1)"
  shows "\<exists>X2 Y2 w2. transform py self X (Some Y) w1 = (Inr (X2, Y2), w2) \<and>
           heap w2 ! X2 = heap w1 ! X1 \<and> heap w2 ! Y2 = heap w1 ! Y1"
proof -
  note lf = fit_in_place_local[OF fip]
  note lt = pure_local_transform[OF pt]
  note ltt = pure_local_target_transform[OF ptt]
  let ?n = "length (heap w)"
  let ?bs = "blocks self"
  from run obtain wc wd where
    hc: "heap wc = heap w @ [heap w ! X, (heap w @ [heap w ! X]) ! Y]" and
    fb: "fit_blocks py ?bs ?n (Suc ?n) wc = (Inr (X1, Y1), wd)" and
    e1: "est \<longrightarrow> (\<exists>u. fit_estimator py self X1 Y1 wd = (Inr u, w1))" and
    e2: "\<not> est \<longrightarrow> w1 = wd"
    by (rule fit_transform_run)
  have hc': "heap wc = heap w @ [heap w ! X, heap w ! Y]" using hc Y by (simp add: nth_append)
  have lenc: "length (heap wc) = Suc (Suc ?n)" using hc' by simp
  have vc: "\<forall>b\<in>set ?bs. b < length (heap wc)" "?n < length (heap wc)" "Suc ?n < length (heap wc)"
    using bs lenc by auto
  have sc: "?n \<notin> set ?bs" "Suc ?n \<notin> set ?bs" "?n \<noteq> Suc ?n" using bs by auto
  have xc: "heap wc ! ?n = heap w ! X" "heap wc ! Suc ?n = heap w ! Y"
    using hc' by (simp_all add: nth_append)
  from fit_blocks_chain[OF fip pt ptt fb vc d sc] xc have
    ch: "chain py T TT (map ((!) (heap wd)) ?bs) (heap w ! X, heap w ! Y) =
           Some (heap wd ! X1, heap wd ! Y1)" by simp
  have keep_d: "heap wd ! a = heap w ! a \<and> length (heap wc) \<le> length (heap wd) \<and>
      X1 < length (heap wd) \<and> Y1 < length (heap wd) \<and> X1 \<noteq> a \<and> Y1 \<noteq> a"
    if "a < ?n" "a \<notin> set ?bs" for a
  proof -
    have a: "a < length (heap wc)" "a \<noteq> ?n" "a \<noteq> Suc ?n" using that lenc by simp_all
    have "heap wc ! a = heap w ! a" using hc' that by (simp add: nth_append)
    with fit_blocks_frame[OF lf lt ltt fb vc a(1) that(2) a(2,3)] show ?thesis by simp
  qed
  have nx: "X \<notin> set ?bs" and ny: "Y \<notin> set ?bs" using bs by auto
  note kx = keep_d[OF X nx] and ky = keep_d[OF Y ny]
  have lend: "?n \<le> length (heap wd)" using kx lenc by simp
  have rel: "(\<forall>a. a < length (heap wd) \<longrightarrow> (\<forall>e. estimator self = Some e \<longrightarrow> e \<noteq> a) \<longrightarrow>
                 heap w1 ! a = heap wd ! a) \<and> length (heap wd) \<le> length (heap w1)"
  proof (cases est)
    case False
    with e2 show ?thesis by simp
  next
    case True
    with e1 obtain u where fe: "fit_estimator py self X1 Y1 wd = (Inr u, w1)" by blast
    from True le have le': "\<forall>e Xa Ya. local_call {e} (estimator_fit py e Xa Ya)" by simp
    have "heap w1 ! a = heap wd ! a"
      if "a < length (heap wd)" "\<forall>e. estimator self = Some e \<longrightarrow> e \<noteq> a" for a
    proof -
      have "\<forall>e. estimator self = Some e \<longrightarrow> e < length (heap wd) \<and> e \<noteq> a"
        using es that(2) lend by auto
      from fit_estimator_keeps(1)[OF le' fe this that(1)] show ?thesis .
    qed
    moreover have "length (heap wd) \<le> length (heap w1)"
    proof -
      have "\<forall>e. estimator self = Some e \<longrightarrow> e < length (heap wd) \<and> e \<noteq> X1"
      proof (intro allI impI)
        fix e assume e: "estimator self = Some e"
        with es have "e < ?n" "e \<notin> set ?bs" by simp_all
        from keep_d[OF this] e es lend show "e < length (heap wd) \<and> e \<noteq> X1" by auto
      qed
      from fit_estimator_keeps(2)[OF le' fe this] kx show ?thesis by simp
    qed
    ultimately show ?thesis by simp
  qed
  have not_e: "\<forall>e. estimator self = Some e \<longrightarrow> e \<noteq> X1 \<and> e \<noteq> Y1"
  proof (intro allI impI)
    fix e assume e: "estimator self = Some e"
    with es have "e < ?n" "e \<notin> set ?bs" by simp_all
    from keep_d[OF this] show "e \<noteq> X1 \<and> e \<noteq> Y1" by auto
  qed
  have out: "heap w1 ! X1 = heap wd ! X1" "heap w1 ! Y1 = heap wd ! Y1"
    using rel kx not_e by auto
  have orig: "heap w1 ! X = heap w ! X" "heap w1 ! Y = heap w ! Y"
  proof -
    have "X < length (heap wd)" "Y < length (heap wd)" using X Y lend by simp_all
    moreover have "\<forall>e. estimator self = Some e \<longrightarrow> e \<noteq> X" "\<forall>e. estimator self = Some e \<longrightarrow> e \<noteq> Y"
      using es by auto
    ultimately have "heap w1 ! X = heap wd ! X" "heap w1 ! Y = heap wd ! Y" using rel by auto
    with kx ky show "heap w1 ! X = heap w ! X" "heap w1 ! Y = heap w ! Y" by simp_all
  qed
  have states: "map ((!) (heap w1)) ?bs = map ((!) (heap wd)) ?bs"
  proof (rule map_cong[OF refl])
    fix b assume b: "b \<in> set ?bs"
    with bs lend have "b < length (heap wd)" by auto
    moreover from b es have "\<forall>e. estimator self = Some e \<longrightarrow> e \<noteq> b" by auto
    ultimately show "heap w1 ! b = heap wd ! b" using rel by simp
  qed
  let ?m = "length (heap w1)"
  have len1: "?n \<le> ?m" using lend rel by simp
  obtain r2 w2 where t: "transform py self X (Some Y) w1 = (r2, w2)"
    by (cases "transform py self X (Some Y) w1")
  from t obtain wg where
    hg: "heap wg = heap w1 @ [heap w1 ! X, (heap w1 @ [heap w1 ! X]) ! Y]" and
    tb: "transform_blocks py ?bs ?m (Suc ?m) wg = (r2, w2)"
    by (rule transform_run)
  have hg': "heap wg = heap w1 @ [heap w ! X, heap w ! Y]"
    using hg Y len1 orig by (simp add: nth_append)
  have leng: "length (heap wg) = Suc (Suc ?m)" using hg' by simp
  have vg: "\<forall>b\<in>set ?bs. b < length (heap wg)" "?m < length (heap wg)" "Suc ?m < length (heap wg)"
    using bs leng len1 by auto
  have sg: "?m \<notin> set ?bs" "Suc ?m \<notin> set ?bs" "?m \<noteq> Suc ?m" using bs len1 by auto
  have xg: "heap wg ! ?m = heap w ! X" "heap wg ! Suc ?m = heap w ! Y"
    using hg' by (simp_all add: nth_append)
  have states_g: "map ((!) (heap wg)) ?bs = map ((!) (heap wd)) ?bs"
  proof -
    have "map ((!) (heap wg)) ?bs = map ((!) (heap w1)) ?bs"
    proof (rule map_cong[OF refl])
      fix b assume "b \<in> set ?bs"
      with bs len1 have "b < ?m" by auto
      then show "heap wg ! b = heap w1 ! b" using hg' by (simp add: nth_append)
    qed
    with states show ?thesis by simp
  qed
  note C = transform_blocks_chain[OF pt ptt tb vg sg, unfolded states_g xg ch]
  show ?thesis
  proof (cases r2)
    case (Inl e)
    with C show ?thesis by simp
  next
    case (Inr p)
    obtain X2 Y2 where p: "p = (X2, Y2)" by (cases p)
    from C Inr p have "heap wd ! X1 = heap w2 ! X2" "heap wd ! Y1 = heap w2 ! Y2" by simp_all
    with out t Inr p show ?thesis by simp
  qed
qed


theorem transform_repeats_fit_transform_witness:
  "\<exists>X2 Y2 w2. transform demo_py demo_conveyor 3 (Some 4) fitted_world = (Inr (X2, Y2), w2) \<and>
      heap w2 ! X2 = heap fitted_world ! 5 \<and> heap w2 ! Y2 = heap fitted_world ! 7"
proof -
  have f: "fit_transform demo_py demo_conveyor 3 4 True demo_world = (Inr (5, 7), fitted_world)"
  proof -
    have "fst (fit_transform demo_py demo_conveyor 3 4 True demo_world) = Inr (5, 7)" by code_simp
    then show ?thesis by (simp add: prod_eq_iff fitted_world_def)
  qed
  have h1: "True \<longrightarrow> (\<forall>e Xa Ya. local_call {e} (estimator_fit demo_py e Xa Ya))"
    using demo_estimator_in_place by simp
  have h2: "distinct (blocks demo_conveyor)" by (simp add: demo_conveyor_def)
  have h3: "3 < length (heap demo_world)" "4 < length (heap demo_world)"
    by (simp_all add: demo_world_def)
  have h4: "\<forall>b\<in>set (blocks demo_conveyor). b < length (heap demo_world) \<and> b \<noteq> 3 \<and> b \<noteq> 4"
    by (simp add: demo_world_def demo_conveyor_def)
  have h5: "\<forall>e. estimator demo_conveyor = Some e \<longrightarrow>
      e < length (heap demo_world) \<and> e \<noteq> 3 \<and> e \<noteq> 4 \<and> e \<notin> set (blocks demo_conveyor)"
    by (simp add: demo_world_def demo_conveyor_def)
  show ?thesis
    by (rule transform_repeats_fit_transform[OF demo_fit_in_place demo_pure_transform
          demo_pure_target_transform h1 h2 h3 h4 h5 f])
qed

text \<open>
  Claim C8 as stated fails.  The Conveyor transforms with the object that \<^verbatim>\<open>fit\<close>
  returns but keeps the object it was given in its list: with a \<^verbatim>\<open>Center\<close> whose
  \<^verbatim>\<open>fit\<close> returns a new fitted stage, \<^verbatim>\<open>transform\<close> and \<^verbatim>\<open>target_transform\<close> are pure
  functions of the fitted state, \<^verbatim>\<open>fit_transform\<close> returns its two tables, and
  \<^verbatim>\<open>transform\<close> of the same input raises, for the stage in the list was never fitted.
\<close>

theorem transform_after_fresh_fit_counterexample:
  "pure_call demo_T (block_transform fresh_py) \<and>
   pure_call demo_TT (block_target_transform fresh_py) \<and>
   fst (fit_transform fresh_py demo_conveyor 3 4 False demo_world) = Inr (5, 8) \<and>
   fst (transform fresh_py demo_conveyor 3 (Some 4)
          (snd (fit_transform fresh_py demo_conveyor 3 4 False demo_world))) =
     Inl (Exn ''NotFittedError'' ''Center'')"
proof -
  have 1: "block_transform fresh_py = block_transform demo_py"
    "block_target_transform fresh_py = block_target_transform demo_py"
    by (simp_all add: fresh_py_def)
  have 2: "fst (fit_transform fresh_py demo_conveyor 3 4 False demo_world) = Inr (5, 8)"
    by code_simp
  have 3: "fst (transform fresh_py demo_conveyor 3 (Some 4)
          (snd (fit_transform fresh_py demo_conveyor 3 4 False demo_world))) =
     Inl (Exn ''NotFittedError'' ''Center'')"
    by code_simp
  from demo_pure_transform demo_pure_target_transform 2 3 show ?thesis
    unfolding 1 by (intro conjI)
qed

subsection \<open>The scoring adapter\<close>




subsection \<open>The report of score\<close>









subsection \<open>The champion\<close>

lemma fit_model_tracks_returned:
  assumes "fit_model_tracks py eng X_train Y_train Xv Yv rf optuna cats w1 =
             (Inr (lgb_model, lgb_score, tpot_model, tpot_score), w2)"
  shows "\<exists>r1 wa wb r2 wc.
           fit_lgbm_model py eng X_train Y_train Xv Yv rf optuna cats w1 = (Inr (lgb_model, r1), wa) \<and>
           invoke (MetricEval (fn_name rf)) (fn_call rf Yv r1) wa = (Inr lgb_score, wb) \<and>
           fit_sklearn_model py eng X_train Y_train Xv Yv rf optuna wb = (Inr (tpot_model, r2), wc) \<and>
           invoke (MetricEval (fn_name rf)) (fn_call rf Yv r2) wc = (Inr tpot_score, w2)"
  using assms unfolding fit_model_tracks_def
proof (cases rule: andthenE)
  case (raised e)
  then show ?thesis by simp
next
  case (returned a wa)
  obtain m1 r1 where a: "a = (m1, r1)" by (cases a)
  from returned(2) show ?thesis unfolding a prod.case
  proof (cases rule: andthenE)
    case (raised e)
    then show ?thesis by simp
  next
    case (returned s1 wb)
    note lg = this
    from lg(2) show ?thesis
    proof (cases rule: andthenE)
      case (raised e)
      then show ?thesis by simp
    next
      case (returned b wc)
      obtain m2 r2 where b: "b = (m2, r2)" by (cases b)
      from returned(2) show ?thesis unfolding b prod.case
      proof (cases rule: andthenE)
        case (raised e)
        then show ?thesis by simp
      next
        case (returned s2 wd)
        from retD[OF returned(2)] have eq: "lgb_model = m1" "lgb_score = s1" "tpot_model = m2"
          "tpot_score = s2" "w2 = wd" by simp_all
        from \<open>fit_lgbm_model py eng X_train Y_train Xv Yv rf optuna cats w1 = (Inr a, wa)\<close>
          lg(1) \<open>fit_sklearn_model py eng X_train Y_train Xv Yv rf optuna wb = (Inr b, wc)\<close>
          returned(1)
        show ?thesis unfolding a b eq by blast
      qed
    qed
  qed
qed

lemma fit_model_returned:
  assumes "fit_model py eng self X Y X_test Y_test rating_func optuna cats w = (Inr u, self', w')"
  shows "\<exists>rf X_train Y_train Xv Yv w1 lgb_model lgb_score tpot_model tpot_score w2.
           py_eval py rating_func = Inr rf \<and>
           fit_model_data py eng self X Y X_test Y_test w = (Inr (X_train, Y_train, Xv, Yv), w1) \<and>
           fit_model_tracks py eng X_train Y_train Xv Yv rf optuna cats w1 =
             (Inr (lgb_model, lgb_score, tpot_model, tpot_score), w2) \<and>
           self' = self\<lparr>estimator :=
                     Some (if float_gt tpot_score lgb_score then tpot_model else lgb_model)\<rparr>"
proof (cases "py_eval py rating_func")
  case (Inl e)
  with assms show ?thesis by (simp add: fit_model_def)
next
  case (Inr rf)
  define T where "T = andthen (fit_model_data py eng self X Y X_test Y_test)
                  (\<lambda>(X_train, Y_train, Xv, Yv).
                     fit_model_tracks py eng X_train Y_train Xv Yv rf optuna cats)"
  obtain r w2 where T: "T w = (r, w2)" by (cases "T w")
  show ?thesis
  proof (cases r)
    case (Inl e)
    with assms Inr T show ?thesis by (simp add: fit_model_def T_def[symmetric])
  next
    case q: (Inr q)
    obtain lgb_model lgb_score tpot_model tpot_score where
      qq: "q = (lgb_model, lgb_score, tpot_model, tpot_score)" by (cases q)
    from assms Inr T q qq have self': "self' = self\<lparr>estimator :=
                     Some (if float_gt tpot_score lgb_score then tpot_model else lgb_model)\<rparr>"
      by (auto simp: fit_model_def T_def[symmetric] Let_def split: prod.splits)
    from T[unfolded T_def q qq] show ?thesis
    proof (cases rule: andthenE)
      case (raised e)
      then show ?thesis by simp
    next
      case (returned d w1)
      obtain X_train Y_train Xv Yv where d: "d = (X_train, Y_train, Xv, Yv)" by (cases d)
      from returned Inr self' show ?thesis unfolding d prod.case by blast
    qed
  qed
qed

text \<open>
  Claim C1.  When \<^verbatim>\<open>fit_model\<close> completes, both tracks were run on the same training and
  validation tables, the tree-ensemble track's predictions were rated \<open>lgb_score\<close> and
  the generic track's \<open>tpot_score\<close> by the same rating function on the same validation
  target, and the Conveyor's estimator is the generic track's model when
  \<open>tpot_score > lgb_score\<close> and the tree-ensemble track's model otherwise (on a tie, when
  \<open>lgb_score\<close> is greater, and when a score is NaN); its stage list is untouched.
\<close>

theorem champion_is_strictly_better_track:
  assumes "fit_model py eng self X Y X_test Y_test rating_func optuna cats w = (Inr u, self', w')"
  shows "\<exists>rf X_train Y_train Xv Yv w1 lgb_model r1 wa lgb_score wb tpot_model r2 wc tpot_score w2.
           py_eval py rating_func = Inr rf \<and>
           fit_model_data py eng self X Y X_test Y_test w = (Inr (X_train, Y_train, Xv, Yv), w1) \<and>
           fit_lgbm_model py eng X_train Y_train Xv Yv rf optuna cats w1 = (Inr (lgb_model, r1), wa) \<and>
           invoke (MetricEval (fn_name rf)) (fn_call rf Yv r1) wa = (Inr lgb_score, wb) \<and>
           fit_sklearn_model py eng X_train Y_train Xv Yv rf optuna wb = (Inr (tpot_model, r2), wc) \<and>
           invoke (MetricEval (fn_name rf)) (fn_call rf Yv r2) wc = (Inr tpot_score, w2) \<and>
           blocks self' = blocks self \<and>
           (float_gt tpot_score lgb_score \<longrightarrow> estimator self' = Some tpot_model) \<and>
           (\<not> float_gt tpot_score lgb_score \<longrightarrow> estimator self' = Some lgb_model) \<and>
           (tpot_model \<noteq> lgb_model \<longrightarrow>
              (estimator self' = Some tpot_model \<longleftrightarrow> float_gt tpot_score lgb_score))"
proof -
  from fit_model_returned[OF assms] obtain rf X_train Y_train Xv Yv w1 lgb_model lgb_score
    tpot_model tpot_score w2 where
    rf: "py_eval py rating_func = Inr rf"
    and data: "fit_model_data py eng self X Y X_test Y_test w = (Inr (X_train, Y_train, Xv, Yv), w1)"
    and tracks: "fit_model_tracks py eng X_train Y_train Xv Yv rf optuna cats w1 =
             (Inr (lgb_model, lgb_score, tpot_model, tpot_score), w2)"
    and self': "self' = self\<lparr>estimator :=
                     Some (if float_gt tpot_score lgb_score then tpot_model else lgb_model)\<rparr>"
    by blast
  from fit_model_tracks_returned[OF tracks] obtain r1 wa wb r2 wc where
    lgb: "fit_lgbm_model py eng X_train Y_train Xv Yv rf optuna cats w1 = (Inr (lgb_model, r1), wa)"
    and s1: "invoke (MetricEval (fn_name rf)) (fn_call rf Yv r1) wa = (Inr lgb_score, wb)"
    and tpot: "fit_sklearn_model py eng X_train Y_train Xv Yv rf optuna wb = (Inr (tpot_model, r2), wc)"
    and s2: "invoke (MetricEval (fn_name rf)) (fn_call rf Yv r2) wc = (Inr tpot_score, w2)"
    by blast
  have e: "blocks self' = blocks self"
    "float_gt tpot_score lgb_score \<longrightarrow> estimator self' = Some tpot_model"
    "\<not> float_gt tpot_score lgb_score \<longrightarrow> estimator self' = Some lgb_model"
    "tpot_model \<noteq> lgb_model \<longrightarrow>
              (estimator self' = Some tpot_model \<longleftrightarrow> float_gt tpot_score lgb_score)"
    unfolding self' by simp_all
  show ?thesis
    apply (intro exI conjI)
    apply (rule rf)
    apply (rule data)
    apply (rule lgb)
    apply (rule s1)
    apply (rule tpot)
    apply (rule s2)
    apply (rule e)+
    done
qed

theorem champion_is_strictly_better_track_witness:
  "\<exists>w'. fit_model demo_py (demo_engines steady_outcome) demo_conveyor 3 4 None None
       ''exact_match'' Map.empty [] demo_world =
         (Inr (), \<lparr>blocks = [0, 1], estimator = Some 14\<rparr>, w') \<and>
       heap w' ! 12 = Const (Some 3) \<and> heap w' ! 14 = Const (Some (- 4))"
proof -
  let ?E = "demo_engines steady_outcome"
  let ?R = "fit_model demo_py ?E demo_conveyor 3 4 None None ''exact_match'' Map.empty []
              demo_world"
  define W1 where "W1 = snd (fit_model_data demo_py ?E demo_conveyor 3 4 None None demo_world)"
  define Wa where "Wa = snd (fit_lgbm_model demo_py ?E 5 7 9 11 exact_match Map.empty [] W1)"
  define Wb where "Wb = snd (invoke (MetricEval (fn_name exact_match)) (fn_call exact_match 11 13) Wa)"
  define Wc where "Wc = snd (fit_sklearn_model demo_py ?E 5 7 9 11 exact_match Map.empty Wb)"
  have "fst ?R = Inr ()" by code_simp
  then have run: "?R = (Inr (), fst (snd ?R), snd (snd ?R))" by (simp add: prod_eq_iff)
  have hp: "heap (snd (snd ?R)) ! 12 = Const (Some 3)" "heap (snd (snd ?R)) ! 14 = Const (Some (- 4))"
    by code_simp+
  have "fst (fit_model_data demo_py ?E demo_conveyor 3 4 None None demo_world) = Inr (5, 7, 9, 11)"
    by code_simp
  then have k1: "fit_model_data demo_py ?E demo_conveyor 3 4 None None demo_world =
      (Inr (5, 7, 9, 11), W1)"
    by (simp add: prod_eq_iff W1_def)
  have "fst (fit_lgbm_model demo_py ?E 5 7 9 11 exact_match Map.empty [] W1) = Inr (12, 13)"
    unfolding W1_def by code_simp
  then have k2: "fit_lgbm_model demo_py ?E 5 7 9 11 exact_match Map.empty [] W1 = (Inr (12, 13), Wa)"
    by (simp add: prod_eq_iff Wa_def)
  have "fst (invoke (MetricEval (fn_name exact_match)) (fn_call exact_match 11 13) Wa) =
      Inr (Float 0)"
    unfolding Wa_def W1_def by code_simp
  then have k3: "invoke (MetricEval (fn_name exact_match)) (fn_call exact_match 11 13) Wa =
      (Inr (Float 0), Wb)"
    by (simp add: prod_eq_iff Wb_def)
  have "fst (fit_sklearn_model demo_py ?E 5 7 9 11 exact_match Map.empty Wb) = Inr (14, 15)"
    unfolding Wb_def Wa_def W1_def by code_simp
  then have k4: "fit_sklearn_model demo_py ?E 5 7 9 11 exact_match Map.empty Wb = (Inr (14, 15), Wc)"
    by (simp add: prod_eq_iff Wc_def)
  have k5: "fst (invoke (MetricEval (fn_name exact_match)) (fn_call exact_match 11 15) Wc) =
      Inr (Float 1)"
    unfolding Wc_def Wb_def Wa_def W1_def by code_simp
  have ev: "py_eval demo_py ''exact_match'' = Inr exact_match"
    by (simp add: demo_py_def demo_eval_def)
  from champion_is_strictly_better_track[OF run]
  obtain rf X_train Y_train Xv Yv w1 lgb_model r1 wa lgb_score wb tpot_model r2 wc tpot_score w2
    where rf: "py_eval demo_py ''exact_match'' = Inr rf"
      and data: "fit_model_data demo_py ?E demo_conveyor 3 4 None None demo_world =
                   (Inr (X_train, Y_train, Xv, Yv), w1)"
      and lgb: "fit_lgbm_model demo_py ?E X_train Y_train Xv Yv rf Map.empty [] w1 =
                   (Inr (lgb_model, r1), wa)"
      and s1: "invoke (MetricEval (fn_name rf)) (fn_call rf Yv r1) wa = (Inr lgb_score, wb)"
      and tpot: "fit_sklearn_model demo_py ?E X_train Y_train Xv Yv rf Map.empty wb =
                   (Inr (tpot_model, r2), wc)"
      and s2: "invoke (MetricEval (fn_name rf)) (fn_call rf Yv r2) wc = (Inr tpot_score, w2)"
      and b: "blocks (fst (snd ?R)) = blocks demo_conveyor"
      and win: "float_gt tpot_score lgb_score \<longrightarrow> estimator (fst (snd ?R)) = Some tpot_model"
    by blast
  from rf ev have rf': "rf = exact_match" by simp
  from data k1 have d': "X_train = 5" "Y_train = 7" "Xv = 9" "Yv = 11" "w1 = W1" by simp_all
  from lgb[unfolded rf' d'] k2 have l': "lgb_model = 12" "r1 = 13" "wa = Wa" by simp_all
  from s1[unfolded rf' d' l'] k3 have s1': "lgb_score = Float 0" "wb = Wb" by simp_all
  from tpot[unfolded rf' d' s1'] k4 have t': "tpot_model = 14" "r2 = 15" "wc = Wc" by simp_all
  from s2[unfolded rf' d' t'] k5 have s2': "tpot_score = Float 1" by simp
  from win have "estimator (fst (snd ?R)) = Some 14" unfolding s1' s2' t' by simp
  with b have "fst (snd ?R) = \<lparr>blocks = [0, 1], estimator = Some 14\<rparr>"
    by (simp add: demo_conveyor_def)
  with run hp show ?thesis by metis
qed

end
